theory Spec2Isabelle
  imports Complex_Main "HOL-Library.Word" "HOL-Library.AList" "HOL-Library.Multiset"
    "HOL-Library.Log_Nat"
begin

section \<open>Data model of the report analyzer (package analyze)\<close>

text \<open>
  Go's \<open>int\<close> is a 64-bit two's complement integer on the platforms osdctl is built for:
  \<open>+\<close> wraps, comparisons read the value with \<open>sint\<close>.
\<close>

type_synonym go_int = "64 word"

text \<open>
  A Go \<open>map[string]V\<close> is an association list with pairwise different keys:
  \<open>m[k]\<close> is \<open>map_of m k\<close>, \<open>m[k] = v\<close> is \<open>AList.update k v m\<close>, \<open>len(m)\<close> is
  \<open>length m\<close>. The position of an entry in the list carries no meaning: the order in
  which \<open>range\<close> visits the keys is not specified by Go and is an explicit argument of
  every function that ranges over a map.
\<close>

type_synonym 'v go_map = "(string \<times> 'v) list"

text \<open>The attributes of the OCM objects that the analyzer reads.\<close>

record Organization =
  org_ID :: string
  org_Name :: string
  org_EbsAccountID :: string

record Cluster =
  cluster_ID :: string
  cluster_Name :: string

type_synonym AlertStats = "go_int go_map"

record ClusterStats =
  cs_Cluster :: Cluster
  cs_TotalAlerts :: go_int
  cs_Alerts :: AlertStats

record OrganizationStats =
  os_Organization :: Organization
  os_TotalAlerts :: go_int
  os_Clusters :: "ClusterStats go_map"

record OrganizationStatsList =
  Items :: "OrganizationStats go_map"

subsection \<open>Constructors\<close>

definition NewClusterStats :: "Cluster \<Rightarrow> ClusterStats" where
  "NewClusterStats cluster = \<lparr>cs_Cluster = cluster, cs_TotalAlerts = 0, cs_Alerts = []\<rparr>"

definition NewOrganizationStats :: "Organization \<Rightarrow> OrganizationStats" where
  "NewOrganizationStats org = \<lparr>os_Organization = org, os_TotalAlerts = 0, os_Clusters = []\<rparr>"

definition NewOrganizationStatsList :: OrganizationStatsList where
  "NewOrganizationStatsList = \<lparr>Items = []\<rparr>"

subsection \<open>AddStatistic at the three levels\<close>

text \<open>
  \<open>ClusterStats.AddStatistic\<close>: the total is incremented first; a missing alert name is
  stored with count 1, a present one is incremented.
\<close>

definition ClusterStats_AddStatistic :: "string \<Rightarrow> ClusterStats \<Rightarrow> ClusterStats" where
  "ClusterStats_AddStatistic alertName c =
     (let c1 = c\<lparr>cs_TotalAlerts := cs_TotalAlerts c + 1\<rparr>
      in case map_of (cs_Alerts c1) alertName of
           None \<Rightarrow> c1\<lparr>cs_Alerts := AList.update alertName 1 (cs_Alerts c1)\<rparr>
         | Some n \<Rightarrow> c1\<lparr>cs_Alerts := AList.update alertName (n + 1) (cs_Alerts c1)\<rparr>)"

text \<open>
  \<open>OrganizationStats.AddStatistic\<close>: the cluster's statistics are looked up or created,
  updated, and stored back under the cluster's ID.
\<close>

definition OrganizationStats_AddStatistic ::
  "Cluster \<Rightarrow> string \<Rightarrow> OrganizationStats \<Rightarrow> OrganizationStats" where
  "OrganizationStats_AddStatistic cluster alert os =
     (let o1 = os\<lparr>os_TotalAlerts := os_TotalAlerts os + 1\<rparr>;
          clusterStats = (case map_of (os_Clusters o1) (cluster_ID cluster) of
                            None \<Rightarrow> NewClusterStats cluster
                          | Some cs \<Rightarrow> cs);
          clusterStats' = ClusterStats_AddStatistic alert clusterStats
      in o1\<lparr>os_Clusters := AList.update (cluster_ID cluster) clusterStats' (os_Clusters o1)\<rparr>)"

definition OrganizationStatsList_AddStatistic ::
  "Organization \<Rightarrow> Cluster \<Rightarrow> string \<Rightarrow> OrganizationStatsList \<Rightarrow> OrganizationStatsList" where
  "OrganizationStatsList_AddStatistic org cluster alert l =
     (let orgStats = (case map_of (Items l) (org_ID org) of
                        None \<Rightarrow> NewOrganizationStats org
                      | Some os \<Rightarrow> os);
          orgStats' = OrganizationStats_AddStatistic cluster alert orgStats
      in l\<lparr>Items := AList.update (org_ID org) orgStats' (Items l)\<rparr>)"

text \<open>A sequence of calls, applied from left to right.\<close>

fun AddStatistics ::
  "(Organization \<times> Cluster \<times> string) list \<Rightarrow> OrganizationStatsList \<Rightarrow> OrganizationStatsList" where
  "AddStatistics [] l = l"
| "AddStatistics ((org, cluster, alert) # calls) l =
     AddStatistics calls (OrganizationStatsList_AddStatistic org cluster alert l)"

subsection \<open>The counting invariant\<close>

definition cluster_sum_ok :: "ClusterStats \<Rightarrow> bool" where
  "cluster_sum_ok c \<longleftrightarrow>
     distinct (map fst (cs_Alerts c)) \<and> cs_TotalAlerts c = sum_list (map snd (cs_Alerts c))"

definition org_sum_ok :: "OrganizationStats \<Rightarrow> bool" where
  "org_sum_ok os \<longleftrightarrow>
     distinct (map fst (os_Clusters os)) \<and>
     os_TotalAlerts os = sum_list (map (\<lambda>kc. cs_TotalAlerts (snd kc)) (os_Clusters os)) \<and>
     list_all (\<lambda>kc. cluster_sum_ok (snd kc)) (os_Clusters os)"

definition stats_sum_ok :: "OrganizationStatsList \<Rightarrow> bool" where
  "stats_sum_ok l \<longleftrightarrow>
     distinct (map fst (Items l)) \<and> list_all (\<lambda>ko. org_sum_ok (snd ko)) (Items l)"

section \<open>Go library operations the analyzer relies on\<close>

subsection \<open>Ranging over a map\<close>

text \<open>
  \<open>for k, v := range m\<close> visits every key of \<open>m\<close> once, in an order Go leaves
  unspecified (and varies from one loop to the next). \<open>ks\<close> is the order of one such
  loop; \<open>range_order\<close> says that it is an order of the keys of \<open>m\<close>.
\<close>

definition range_map :: "string list \<Rightarrow> 'v go_map \<Rightarrow> (string \<times> 'v) list" where
  "range_map ks m = List.map_filter (\<lambda>k. map_option (Pair k) (map_of m k)) ks"

definition range_order :: "string list \<Rightarrow> 'v go_map \<Rightarrow> bool" where
  "range_order ks m \<longleftrightarrow> distinct ks \<and> set ks = set (map fst m)"

text \<open>A Go map holds each key once, and fewer than \<open>2 ^ 63\<close> entries (\<open>len\<close> is an \<open>int\<close>).\<close>

definition go_map_ok :: "'v go_map \<Rightarrow> bool" where
  "go_map_ok m \<longleftrightarrow> distinct (map fst m) \<and> length m < 2 ^ 63"

definition len :: "'a list \<Rightarrow> go_int" where
  "len xs = word_of_nat (length xs)"

subsection \<open>Slicing\<close>

datatype panic = Index_out_of_range | Slice_bounds_out_of_range

text \<open>\<open>s[low:]\<close> panics unless \<open>0 <= low <= len(s)\<close>.\<close>

definition slice_from :: "go_int \<Rightarrow> 'a list \<Rightarrow> panic + 'a list" where
  "slice_from low xs =
     (if 0 \<le> sint low \<and> sint low \<le> sint (len xs) then Inr (drop (nat (sint low)) xs)
      else Inl Slice_bounds_out_of_range)"

subsection \<open>sort.Slice\<close>

text \<open>
  \<open>sort.Slice(stats, less)\<close> belongs to the Go library and is an argument
  \<open>sort_Slice\<close> of the functions that call it. The library promises a permutation of the
  slice in which no element is \<open>less\<close> than an earlier one, and no more: the sort is
  not stable.
\<close>

definition sorts :: "(('a \<Rightarrow> 'a \<Rightarrow> bool) \<Rightarrow> 'a list \<Rightarrow> 'a list) \<Rightarrow> ('a \<Rightarrow> 'a \<Rightarrow> bool) \<Rightarrow> bool" where
  "sorts sort_Slice lt \<longleftrightarrow>
     (\<forall>xs. mset (sort_Slice lt xs) = mset xs \<and>
           sorted_wrt (\<lambda>a b. \<not> lt b a) (sort_Slice lt xs))"

text \<open>
  The insertion sort that \<open>sort.Slice\<close> runs on short slices (it is the whole sort
  for a handful of elements): each element moves left past the elements it is \<open>less\<close>
  than, so elements that compare equal keep their order. \<open>insert_left\<close> works on the
  sorted prefix in reverse. It is one \<open>sort_Slice\<close> that \<open>sorts\<close>.
\<close>

fun insert_left :: "('a \<Rightarrow> 'a \<Rightarrow> bool) \<Rightarrow> 'a \<Rightarrow> 'a list \<Rightarrow> 'a list" where
  "insert_left lt x [] = [x]"
| "insert_left lt x (p # ps) = (if lt x p then p # insert_left lt x ps else x # p # ps)"

definition insertionSort :: "('a \<Rightarrow> 'a \<Rightarrow> bool) \<Rightarrow> 'a list \<Rightarrow> 'a list" where
  "insertionSort lt xs = rev (foldl (\<lambda>ps x. insert_left lt x ps) [] xs)"

subsection \<open>float32\<close>

text \<open>
  IEEE 754 binary32 values. A finite value is the real number it stands for; the sign of
  a zero is not kept: the analyzer divides only by converted integers, whose zero is
  positive, and reads its results with \<open>==\<close>, \<open>>\<close> and formatting of the magnitude.
\<close>

datatype float32 = Finite real | PInf | NInf | NaN

text \<open>Rounding to the nearest integer, ties to even.\<close>

definition round_even :: "real \<Rightarrow> int" where
  "round_even r =
     (let f = \<lfloor>r\<rfloor>; d = r - of_int f
      in if d < 1 / 2 then f else if 1 / 2 < d then f + 1 else if even f then f else f + 1)"

text \<open>The binary exponent of a positive real: \<open>2 ^ expo x \<le> x < 2 ^ (expo x + 1)\<close>.\<close>

definition expo :: "real \<Rightarrow> int" where
  "expo x = (if 1 \<le> x then bitlen \<lfloor>x\<rfloor> - 1 else - bitlen (\<lceil>1 / x\<rceil> - 1))"

text \<open>
  Rounding a real to binary32, to nearest with ties to even: 24 significant bits, the
  smallest exponent is -126 (below it the spacing stays \<open>2 ^ -149\<close>), and a result of
  magnitude \<open>2 ^ 128\<close> or more is an infinity.
\<close>

definition f32_round :: "real \<Rightarrow> float32" where
  "f32_round x =
     (if x = 0 then Finite 0
      else let u = 2 powi (max (expo \<bar>x\<bar>) (- 126) - 23);
               y = of_int (round_even (x / u)) * u
           in if 2 ^ 128 \<le> \<bar>y\<bar> then (if 0 < x then PInf else NInf) else Finite y)"

text \<open>The conversion \<open>float32(i)\<close> of an \<open>int\<close>.\<close>

definition float32 :: "go_int \<Rightarrow> float32" where
  "float32 i = f32_round (real_of_int (sint i))"

fun f32_div :: "float32 \<Rightarrow> float32 \<Rightarrow> float32" where
  "f32_div NaN _ = NaN"
| "f32_div _ NaN = NaN"
| "f32_div (Finite a) (Finite b) =
     (if b = 0 then (if a = 0 then NaN else if 0 < a then PInf else NInf)
      else f32_round (a / b))"
| "f32_div (Finite a) PInf = Finite 0"
| "f32_div (Finite a) NInf = Finite 0"
| "f32_div PInf (Finite b) = (if 0 \<le> b then PInf else NInf)"
| "f32_div NInf (Finite b) = (if 0 \<le> b then NInf else PInf)"
| "f32_div PInf PInf = NaN"
| "f32_div PInf NInf = NaN"
| "f32_div NInf PInf = NaN"
| "f32_div NInf NInf = NaN"

fun f32_mul :: "float32 \<Rightarrow> float32 \<Rightarrow> float32" where
  "f32_mul NaN _ = NaN"
| "f32_mul _ NaN = NaN"
| "f32_mul (Finite a) (Finite b) = f32_round (a * b)"
| "f32_mul (Finite a) PInf = (if a = 0 then NaN else if 0 < a then PInf else NInf)"
| "f32_mul (Finite a) NInf = (if a = 0 then NaN else if 0 < a then NInf else PInf)"
| "f32_mul PInf (Finite b) = (if b = 0 then NaN else if 0 < b then PInf else NInf)"
| "f32_mul NInf (Finite b) = (if b = 0 then NaN else if 0 < b then NInf else PInf)"
| "f32_mul PInf PInf = PInf"
| "f32_mul PInf NInf = NInf"
| "f32_mul NInf PInf = NInf"
| "f32_mul NInf NInf = PInf"

text \<open>The comparisons \<open>x > y\<close> and \<open>x == y\<close>: both are false when an operand is NaN.\<close>

fun f32_gt :: "float32 \<Rightarrow> float32 \<Rightarrow> bool" where
  "f32_gt NaN _ = False"
| "f32_gt _ NaN = False"
| "f32_gt (Finite a) (Finite b) = (b < a)"
| "f32_gt (Finite a) PInf = False"
| "f32_gt (Finite a) NInf = True"
| "f32_gt PInf PInf = False"
| "f32_gt PInf _ = True"
| "f32_gt NInf _ = False"

fun f32_eq :: "float32 \<Rightarrow> float32 \<Rightarrow> bool" where
  "f32_eq NaN _ = False"
| "f32_eq _ NaN = False"
| "f32_eq x y = (x = y)"

section \<open>The analyzer\<close>

text \<open>
  \<open>OrgAnalyzer\<close> embeds the \<open>OrganizationStatsList\<close> (field \<open>Stats\<close>), so the list's
  methods are methods of the analyzer. The analyzer's streams are not a field here:
  every function that prints returns what it printed.
\<close>

record OrgAnalyzer =
  Stats :: OrganizationStatsList
  SkippedEntries :: go_int
  TotalEntries :: go_int
  Output :: string
  NumOrgs :: go_int
  SearchRegex :: string

definition NewOrgAnalyzer :: OrgAnalyzer where
  "NewOrgAnalyzer =
     \<lparr>Stats = NewOrganizationStatsList, SkippedEntries = 0, TotalEntries = 0,
      Output = [], NumOrgs = 0, SearchRegex = []\<rparr>"

definition AddStatistic :: "Organization \<Rightarrow> Cluster \<Rightarrow> string \<Rightarrow> OrgAnalyzer \<Rightarrow> OrgAnalyzer" where
  "AddStatistic org cluster alert an =
     an\<lparr>Stats := OrganizationStatsList_AddStatistic org cluster alert (Stats an)\<rparr>"

subsection \<open>Percentages\<close>

definition CalculateSkipPercentage :: "OrgAnalyzer \<Rightarrow> float32" where
  "CalculateSkipPercentage an =
     f32_mul (f32_div (float32 (SkippedEntries an)) (float32 (TotalEntries an))) (f32_round 100)"

definition CalculatePercentageOfTotal :: "OrgAnalyzer \<Rightarrow> go_int \<Rightarrow> float32" where
  "CalculatePercentageOfTotal an cnt =
     f32_mul (f32_div (float32 cnt) (float32 (TotalEntries an))) (f32_round 100)"

definition CalculatePercentageOfAnalyzed :: "OrgAnalyzer \<Rightarrow> go_int \<Rightarrow> float32" where
  "CalculatePercentageOfAnalyzed an cnt =
     (let analyzedAlerts = TotalEntries an - SkippedEntries an
      in f32_mul (f32_div (float32 cnt) (float32 analyzedAlerts)) (f32_round 100))"

subsection \<open>Ranking\<close>

definition org_less :: "OrganizationStats \<Rightarrow> OrganizationStats \<Rightarrow> bool" where
  "org_less a b \<longleftrightarrow> sint (os_TotalAlerts a) < sint (os_TotalAlerts b)"

definition cluster_less :: "ClusterStats \<Rightarrow> ClusterStats \<Rightarrow> bool" where
  "cluster_less a b \<longleftrightarrow> sint (cs_TotalAlerts a) < sint (cs_TotalAlerts b)"

text \<open>
  \<open>TopOrgs\<close>: the values of the map in the order \<open>ks\<close> of the \<open>range\<close> loop, sorted,
  and then all of them or the last \<open>numOrgs\<close>.
\<close>

definition TopOrgs ::
  "((OrganizationStats \<Rightarrow> OrganizationStats \<Rightarrow> bool) \<Rightarrow> OrganizationStats list \<Rightarrow> OrganizationStats list)
   \<Rightarrow> string list \<Rightarrow> OrganizationStatsList \<Rightarrow> go_int \<Rightarrow> panic + OrganizationStats list" where
  "TopOrgs sort_Slice ks l numOrgs =
     (let stats = sort_Slice org_less (map snd (range_map ks (Items l)))
      in if sint numOrgs \<le> 0 \<or> sint (len stats) < sint numOrgs then Inr stats
         else slice_from (len stats - numOrgs) stats)"

text \<open>\<open>TopClusters\<close> slices without a check of \<open>numClusters\<close>.\<close>

definition TopClusters ::
  "((ClusterStats \<Rightarrow> ClusterStats \<Rightarrow> bool) \<Rightarrow> ClusterStats list \<Rightarrow> ClusterStats list)
   \<Rightarrow> string list \<Rightarrow> OrganizationStats \<Rightarrow> go_int \<Rightarrow> panic + ClusterStats list" where
  "TopClusters sort_Slice ks os numClusters =
     (let stats = sort_Slice cluster_less (map snd (range_map ks (os_Clusters os)))
      in slice_from (len stats - numClusters) stats)"

subsection \<open>Errors, printed lines\<close>

text \<open>
  One constructor for each error the package builds; \<open>Lib\<close> is an error handed over by a
  library or by OCM, \<open>EOF\<close> is \<open>io.EOF\<close>.
\<close>

datatype error =
    Lib string
  | EOF
  | Invalid_output_format
  | Invalid_argument error
  | Unrecoverable_analyzing string error
  | Unable_to_summarize error
  | Failed_to_open_report string error
  | Failed_to_create_ocm_client error
  | Failed_to_print_yaml error
  | Failed_to_print_json error
  | Invalid_output_requested

text \<open>One constructor for each format string that is printed, with its arguments.\<close>

datatype message =
    Results
  | Blank
  | Entries_skipped go_int go_int float32
  | High_skip_percentage
  | Organization_line string string
  | Total_alerts_short go_int go_int
  | Ebs_account string
  | Total_alerts go_int go_int
  | Percent_of_all float32
  | Percent_of_analyzed float32
  | Clusters_header
  | Cluster_line string string
  | Cluster_alerts go_int go_int
  | Cluster_percent_of_all float32
  | Cluster_percent_of_analyzed float32
  | Alerts_header
  | Alert_line string go_int
  | Marshalled string
  | Failed_read_header error
  | Failed_read_entry error
  | Failed_retrieve_cluster string error
  | Failed_retrieve_org_id string error
  | Failed_retrieve_org string error
  | Failed_compare_name string string error
  | Failed_compare_id string string error

text \<open>\<open>Println\<close> writes to the analyzer's \<open>Out\<close> stream, \<open>Errorln\<close> to \<open>ErrOut\<close>.\<close>

datatype printed = Println message | Errorln message

subsection \<open>Summaries\<close>

definition skip_lines :: "OrgAnalyzer \<Rightarrow> printed list" where
  "skip_lines an =
     (let skipPercentage = CalculateSkipPercentage an
      in [Println (Entries_skipped (SkippedEntries an) (TotalEntries an) skipPercentage)] @
         (if f32_gt skipPercentage (f32_round (3 / 10)) then [Errorln High_skip_percentage]
          else []))"

definition short_org_lines :: "OrganizationStats \<Rightarrow> printed list" where
  "short_org_lines org =
     [Println (Organization_line (org_Name (os_Organization org)) (org_ID (os_Organization org))),
      Println (Total_alerts_short (os_TotalAlerts org) (len (os_Clusters org)))]"

text \<open>
  The summaries return the lines printed and, if the run stopped in a panic, the panic.
\<close>

definition printShortSummary ::
  "((OrganizationStats \<Rightarrow> OrganizationStats \<Rightarrow> bool) \<Rightarrow> OrganizationStats list \<Rightarrow> OrganizationStats list)
   \<Rightarrow> string list \<Rightarrow> OrgAnalyzer \<Rightarrow> printed list \<times> panic option" where
  "printShortSummary sort_Slice ks an =
     (let head = [Println Results, Println Blank] @ skip_lines an
      in case TopOrgs sort_Slice ks (Stats an) (NumOrgs an) of
           Inl p \<Rightarrow> (head, Some p)
         | Inr topOrgs \<Rightarrow> (head @ concat (map short_org_lines topOrgs), None))"

text \<open>
  The long summary ranges over the clusters of each organization and over the alerts of
  each cluster: \<open>corder\<close> and \<open>aorder\<close> give the orders of these loops.
\<close>

definition long_cluster_lines ::
  "(ClusterStats \<Rightarrow> string list) \<Rightarrow> OrgAnalyzer \<Rightarrow> ClusterStats \<Rightarrow> printed list" where
  "long_cluster_lines aorder an cluster =
     [Println (Cluster_line (cluster_Name (cs_Cluster cluster)) (cluster_ID (cs_Cluster cluster))),
      Println (Cluster_alerts (cs_TotalAlerts cluster) (len (cs_Alerts cluster))),
      Println (Cluster_percent_of_all (CalculatePercentageOfTotal an (cs_TotalAlerts cluster))),
      Println (Cluster_percent_of_analyzed (CalculatePercentageOfAnalyzed an (cs_TotalAlerts cluster))),
      Println Alerts_header] @
     map (\<lambda>(alert, cnt). Println (Alert_line alert cnt))
       (range_map (aorder cluster) (cs_Alerts cluster))"

definition long_org_lines ::
  "(OrganizationStats \<Rightarrow> string list) \<Rightarrow> (ClusterStats \<Rightarrow> string list) \<Rightarrow> OrgAnalyzer \<Rightarrow>
   OrganizationStats \<Rightarrow> printed list" where
  "long_org_lines corder aorder an org =
     [Println (Organization_line (org_Name (os_Organization org)) (org_ID (os_Organization org))),
      Println (Ebs_account (org_EbsAccountID (os_Organization org))),
      Println (Total_alerts (os_TotalAlerts org) (len (os_Clusters org))),
      Println (Percent_of_all (CalculatePercentageOfTotal an (os_TotalAlerts org))),
      Println (Percent_of_analyzed (CalculatePercentageOfAnalyzed an (os_TotalAlerts org))),
      Println Clusters_header] @
     concat (map (long_cluster_lines aorder an)
       (map snd (range_map (corder org) (os_Clusters org)))) @
     [Println Blank]"

definition printLongSummary ::
  "((OrganizationStats \<Rightarrow> OrganizationStats \<Rightarrow> bool) \<Rightarrow> OrganizationStats list \<Rightarrow> OrganizationStats list)
   \<Rightarrow> string list \<Rightarrow> (OrganizationStats \<Rightarrow> string list) \<Rightarrow> (ClusterStats \<Rightarrow> string list)
   \<Rightarrow> OrgAnalyzer \<Rightarrow> printed list \<times> panic option" where
  "printLongSummary sort_Slice ks corder aorder an =
     (let head = [Println Results, Println Blank] @ skip_lines an
      in case TopOrgs sort_Slice ks (Stats an) (NumOrgs an) of
           Inl p \<Rightarrow> (head, Some p)
         | Inr topOrgs \<Rightarrow> (head @ concat (map (long_org_lines corder aorder an) topOrgs), None))"

subsection \<open>The collaborators of a run\<close>

text \<open>
  What the analyzer calls outside the package. \<open>ReadFile\<close> stands for \<open>os.ReadFile\<close>
  followed by \<open>csv.NewReader\<close>: it gives the results of the successive \<open>Read\<close> calls
  that come before \<open>io.EOF\<close>, each a record or an error.
\<close>

record env =
  ReadFile :: "string \<Rightarrow> error + (error + string list) list"
  CreateConnection :: "error option"
  GetCluster :: "string \<Rightarrow> error + Cluster"
  GetOrgIDFromCluster :: "Cluster \<Rightarrow> error + string"
  GetOrgFromID :: "string \<Rightarrow> error + Organization"
  MatchString :: "string \<Rightarrow> string \<Rightarrow> error + bool"
  MarshalYaml :: "OrgAnalyzer \<Rightarrow> error + string"
  MarshalJson :: "OrgAnalyzer \<Rightarrow> error + string"

text \<open>How a call ends: it returns its error value (\<open>None\<close> is \<open>nil\<close>), or it panics.\<close>

datatype outcome = Returned "error option" | Panicked panic

subsection \<open>Analyze\<close>

definition parseEntry :: "string list \<Rightarrow> panic + string \<times> string" where
  "parseEntry entry =
     (if 6 < length entry then Inr (entry ! 5, entry ! 6) else Inl Index_out_of_range)"

definition skip :: "OrgAnalyzer \<Rightarrow> message \<Rightarrow> panic + OrgAnalyzer \<times> printed list" where
  "skip an msg = Inr (an\<lparr>SkippedEntries := SkippedEntries an + 1\<rparr>, [Errorln msg])"

text \<open>
  One turn of the loop of \<open>Analyze\<close>, for a \<open>Read\<close> that did not return \<open>io.EOF\<close>:
  the new analyzer and the lines printed, or the panic of \<open>parseEntry\<close>.
\<close>

definition analyze_entry ::
  "env \<Rightarrow> error + string list \<Rightarrow> OrgAnalyzer \<Rightarrow> panic + OrgAnalyzer \<times> printed list" where
  "analyze_entry env r an0 =
     (let an = an0\<lparr>TotalEntries := TotalEntries an0 + 1\<rparr>
      in case r of
           Inl err \<Rightarrow> skip an (Failed_read_entry err)
         | Inr entry \<Rightarrow>
             (case parseEntry entry of
                Inl p \<Rightarrow> Inl p
              | Inr (clusterID, alert) \<Rightarrow>
                  (case GetCluster env clusterID of
                     Inl err \<Rightarrow> skip an (Failed_retrieve_cluster clusterID err)
                   | Inr cluster \<Rightarrow>
                       (case GetOrgIDFromCluster env cluster of
                          Inl err \<Rightarrow> skip an (Failed_retrieve_org_id (cluster_ID cluster) err)
                        | Inr orgID \<Rightarrow>
                            (case GetOrgFromID env orgID of
                               Inl err \<Rightarrow> skip an (Failed_retrieve_org orgID err)
                             | Inr org \<Rightarrow>
                                 if SearchRegex an \<noteq> [] then
                                   (case MatchString env (SearchRegex an) (org_Name org) of
                                      Inl err \<Rightarrow>
                                        skip an (Failed_compare_name (org_Name org) (SearchRegex an) err)
                                    | Inr matchName \<Rightarrow>
                                        (case MatchString env (SearchRegex an) (org_ID org) of
                                           Inl err \<Rightarrow>
                                             skip an (Failed_compare_id (org_ID org) (SearchRegex an) err)
                                         | Inr matchID \<Rightarrow>
                                             if \<not> matchName \<and> \<not> matchID then Inr (an, [])
                                             else Inr (AddStatistic org cluster alert an, [])))
                                 else Inr (AddStatistic org cluster alert an, []))))))"

text \<open>The loop: the \<open>Read\<close> after the last result returns \<open>io.EOF\<close> and ends it.\<close>

fun analyze_loop ::
  "env \<Rightarrow> (error + string list) list \<Rightarrow> OrgAnalyzer \<Rightarrow> printed list \<Rightarrow>
   outcome \<times> OrgAnalyzer \<times> printed list" where
  "analyze_loop env [] an out = (Returned None, an, out)"
| "analyze_loop env (r # rs) an out =
     (case analyze_entry env r an of
        Inl p \<Rightarrow> (Panicked p, an\<lparr>TotalEntries := TotalEntries an + 1\<rparr>, out)
      | Inr (an', out') \<Rightarrow> analyze_loop env rs an' (out @ out'))"

text \<open>The first \<open>Read\<close> is the header: an error, also \<open>io.EOF\<close>, is printed and ignored.\<close>

definition read_header ::
  "(error + string list) list \<Rightarrow> (error + string list) list \<times> printed list" where
  "read_header report =
     (case report of
        [] \<Rightarrow> ([], [Errorln (Failed_read_header EOF)])
      | Inl err # rest \<Rightarrow> (rest, [Errorln (Failed_read_header err)])
      | Inr _ # rest \<Rightarrow> (rest, []))"

definition Analyze :: "env \<Rightarrow> string \<Rightarrow> OrgAnalyzer \<Rightarrow> outcome \<times> OrgAnalyzer \<times> printed list" where
  "Analyze env reportFilePath an =
     (case ReadFile env reportFilePath of
        Inl err \<Rightarrow> (Returned (Some (Failed_to_open_report reportFilePath err)), an, [])
      | Inr report \<Rightarrow>
          (case CreateConnection env of
             Some err \<Rightarrow> (Returned (Some (Failed_to_create_ocm_client err)), an, [])
           | None \<Rightarrow>
               (let (rest, out) = read_header report in analyze_loop env rest an out)))"

subsection \<open>Summarize and the command\<close>

definition Summarize ::
  "env \<Rightarrow> ((OrganizationStats \<Rightarrow> OrganizationStats \<Rightarrow> bool) \<Rightarrow> OrganizationStats list \<Rightarrow> OrganizationStats list)
   \<Rightarrow> string list \<Rightarrow> (OrganizationStats \<Rightarrow> string list) \<Rightarrow> (ClusterStats \<Rightarrow> string list)
   \<Rightarrow> OrgAnalyzer \<Rightarrow> outcome \<times> printed list" where
  "Summarize env sort_Slice ks corder aorder an =
     (if Output an = ''yaml'' then
        (case MarshalYaml env an of
           Inl err \<Rightarrow> (Returned (Some (Failed_to_print_yaml err)), [])
         | Inr out \<Rightarrow> (Returned None, [Println (Marshalled out)]))
      else if Output an = ''json'' then
        (case MarshalJson env an of
           Inl err \<Rightarrow> (Returned (Some (Failed_to_print_json err)), [])
         | Inr out \<Rightarrow> (Returned None, [Println (Marshalled out)]))
      else if Output an = ''short'' then
        (case printShortSummary sort_Slice ks an of
           (out, Some p) \<Rightarrow> (Panicked p, out)
         | (out, None) \<Rightarrow> (Returned None, out))
      else if Output an = ''long'' then
        (case printLongSummary sort_Slice ks corder aorder an of
           (out, Some p) \<Rightarrow> (Panicked p, out)
         | (out, None) \<Rightarrow> (Returned None, out))
      else (Returned (Some Invalid_output_requested), []))"

definition validateAnalyzer :: "OrgAnalyzer \<Rightarrow> error option" where
  "validateAnalyzer an =
     (if Output an = ''yaml'' then None
      else if Output an = ''json'' then None
      else if Output an = ''short'' then None
      else if Output an = ''long'' then None
      else Some Invalid_output_format)"

text \<open>
  \<open>RunE\<close> of the command \<open>org\<close>, on the analyzer the flags have filled and the one
  argument cobra has let through: the outcome, the analyzer afterwards and the lines
  printed.
\<close>

definition RunE ::
  "env \<Rightarrow> ((OrganizationStats \<Rightarrow> OrganizationStats \<Rightarrow> bool) \<Rightarrow> OrganizationStats list \<Rightarrow> OrganizationStats list)
   \<Rightarrow> string list \<Rightarrow> (OrganizationStats \<Rightarrow> string list) \<Rightarrow> (ClusterStats \<Rightarrow> string list)
   \<Rightarrow> OrgAnalyzer \<Rightarrow> string \<Rightarrow> outcome \<times> OrgAnalyzer \<times> printed list" where
  "RunE env sort_Slice ks corder aorder analyzer arg =
     (case validateAnalyzer analyzer of
        Some err \<Rightarrow> (Returned (Some (Invalid_argument err)), analyzer, [])
      | None \<Rightarrow>
          (case Analyze env arg analyzer of
             (Panicked p, analyzer', out) \<Rightarrow> (Panicked p, analyzer', out)
           | (Returned (Some err), analyzer', out) \<Rightarrow>
               (Returned (Some (Unrecoverable_analyzing arg err)), analyzer', out)
           | (Returned None, analyzer', out) \<Rightarrow>
               (case Summarize env sort_Slice ks corder aorder analyzer' of
                  (Panicked p, out') \<Rightarrow> (Panicked p, analyzer', out @ out')
                | (Returned (Some err), out') \<Rightarrow>
                    (Returned (Some (Unable_to_summarize err)), analyzer', out @ out')
                | (Returned None, out') \<Rightarrow> (Returned None, analyzer', out @ out'))))"

subsection \<open>Queries\<close>

text \<open>
  One call of a query method of the analyzer, and its result. \<open>ks\<close> is the order of the
  \<open>range\<close> loop that the call runs, if it runs one; it may differ from call to call.
\<close>

datatype query =
    Ask_TopOrgs go_int
  | Ask_SkipPercentage
  | Ask_PercentageOfTotal go_int
  | Ask_PercentageOfAnalyzed go_int

datatype answer = Orgs "panic + OrganizationStats list" | Percentage float32

definition ask ::
  "((OrganizationStats \<Rightarrow> OrganizationStats \<Rightarrow> bool) \<Rightarrow> OrganizationStats list \<Rightarrow> OrganizationStats list)
   \<Rightarrow> string list \<Rightarrow> OrgAnalyzer \<Rightarrow> query \<Rightarrow> answer" where
  "ask sort_Slice ks an q =
     (case q of
        Ask_TopOrgs n \<Rightarrow> Orgs (TopOrgs sort_Slice ks (Stats an) n)
      | Ask_SkipPercentage \<Rightarrow> Percentage (CalculateSkipPercentage an)
      | Ask_PercentageOfTotal cnt \<Rightarrow> Percentage (CalculatePercentageOfTotal an cnt)
      | Ask_PercentageOfAnalyzed cnt \<Rightarrow> Percentage (CalculatePercentageOfAnalyzed an cnt))"

subsection \<open>Reading the nested maps\<close>

text \<open>
  The clusters recorded for an organization ID, and the alert counts recorded for a
  cluster ID of an organization ID; both are empty where nothing is recorded.
\<close>

definition clusters_of :: "OrganizationStatsList \<Rightarrow> string \<Rightarrow> ClusterStats go_map" where
  "clusters_of l orgID = (case map_of (Items l) orgID of None \<Rightarrow> [] | Some os \<Rightarrow> os_Clusters os)"

definition alerts_of :: "OrganizationStatsList \<Rightarrow> string \<Rightarrow> string \<Rightarrow> AlertStats" where
  "alerts_of l orgID clusterID =
     (case map_of (clusters_of l orgID) clusterID of None \<Rightarrow> [] | Some cs \<Rightarrow> cs_Alerts cs)"

subsection \<open>Sample data\<close>

definition orgA :: Organization where
  "orgA = \<lparr>org_ID = ''orgA'', org_Name = ''Org A'', org_EbsAccountID = ''1''\<rparr>"

definition orgB :: Organization where
  "orgB = \<lparr>org_ID = ''orgB'', org_Name = ''Org B'', org_EbsAccountID = ''2''\<rparr>"

definition clusterX :: Cluster where
  "clusterX = \<lparr>cluster_ID = ''clusterX'', cluster_Name = ''x''\<rparr>"

definition clusterY :: Cluster where
  "clusterY = \<lparr>cluster_ID = ''clusterY'', cluster_Name = ''y''\<rparr>"

definition clusterZ :: Cluster where
  "clusterZ = \<lparr>cluster_ID = ''clusterZ'', cluster_Name = ''z''\<rparr>"

text \<open>The four triples of the scenario of the specification.\<close>

definition scenario :: "(Organization \<times> Cluster \<times> string) list" where
  "scenario =
     [(orgA, clusterX, ''AlertFoo''), (orgA, clusterX, ''AlertFoo''),
      (orgA, clusterY, ''AlertBar''), (orgB, clusterZ, ''AlertFoo'')]"

text \<open>The statistics of \<open>orgA\<close> after the scenario.\<close>

definition scenario_orgA :: OrganizationStats where
  "scenario_orgA = the (map_of (Items (AddStatistics scenario NewOrganizationStatsList)) ''orgA'')"

text \<open>A report row and collaborators for it: the pattern \<open>(\<close> does not compile.\<close>

definition sample_row :: "string list" where
  "sample_row = [''1'', ''2'', ''3'', ''4'', ''5'', ''clusterX'', ''AlertFoo'']"

definition sample_env :: env where
  "sample_env =
     \<lparr>ReadFile = (\<lambda>path. if path = ''report.csv''
                          then Inr [Inr [''header''], Inr sample_row, Inl (Lib ''bare quote''), Inr sample_row]
                          else Inl (Lib ''no such file'')),
      CreateConnection = None,
      GetCluster = (\<lambda>clusterID. if clusterID = ''clusterX'' then Inr clusterX
                                else Inl (Lib ''cluster not found'')),
      GetOrgIDFromCluster = (\<lambda>cluster. Inr ''orgA''),
      GetOrgFromID = (\<lambda>orgID. if orgID = ''orgA'' then Inr orgA else Inl (Lib ''org not found'')),
      MatchString = (\<lambda>pattern s. if pattern = ''('' then Inl (Lib ''missing closing )'')
                                 else Inr (pattern = s)),
      MarshalYaml = (\<lambda>an. Inr ''yaml''),
      MarshalJson = (\<lambda>an. Inr ''json'')\<rparr>"

text \<open>
  Analyzers: the scenario with its counters set from outside, counters alone, and two
  organizations with one alert each.
\<close>

definition scenario_analyzer :: OrgAnalyzer where
  "scenario_analyzer =
     (foldl (\<lambda>an (org, cluster, alert). AddStatistic org cluster alert an) NewOrgAnalyzer scenario)
       \<lparr>TotalEntries := 5, SkippedEntries := 1\<rparr>"

definition one_of_hundred :: OrgAnalyzer where
  "one_of_hundred = NewOrgAnalyzer\<lparr>SkippedEntries := 1, TotalEntries := 100\<rparr>"

definition one_of_four :: OrgAnalyzer where
  "one_of_four = NewOrgAnalyzer\<lparr>SkippedEntries := 1, TotalEntries := 4\<rparr>"

definition tied_analyzer :: OrgAnalyzer where
  "tied_analyzer =
     AddStatistic orgB clusterZ ''AlertFoo'' (AddStatistic orgA clusterX ''AlertFoo'' NewOrgAnalyzer)"

section \<open>Association lists as maps\<close>

lemma sum_list_update:
  fixes f :: "'v \<Rightarrow> 'a::comm_ring_1"
  shows "sum_list (map (\<lambda>kv. f (snd kv)) (AList.update k v al)) =
     (case map_of al k of
        None \<Rightarrow> sum_list (map (\<lambda>kv. f (snd kv)) al) + f v
      | Some w \<Rightarrow> sum_list (map (\<lambda>kv. f (snd kv)) al) - f w + f v)"
  by (induction al) (auto simp: algebra_simps split: option.splits)

lemma list_all_update:
  assumes "list_all (\<lambda>kv. P (snd kv)) al" and "P v"
  shows "list_all (\<lambda>kv. P (snd kv)) (AList.update k v al)"
  using assms by (induction al) auto

lemma map_of_list_all:
  assumes "list_all (\<lambda>kv. P (snd kv)) al" and "map_of al k = Some v"
  shows "P v"
  using assms by (induction al) (auto split: if_splits)

section \<open>The invariant is kept by AddStatistic\<close>

lemma NewClusterStats_ok: "cluster_sum_ok (NewClusterStats cluster)"
  by (simp add: cluster_sum_ok_def NewClusterStats_def)

lemma NewOrganizationStats_ok: "org_sum_ok (NewOrganizationStats org)"
  by (simp add: org_sum_ok_def NewOrganizationStats_def)

lemma ClusterStats_AddStatistic_total:
  "cs_TotalAlerts (ClusterStats_AddStatistic a c) = cs_TotalAlerts c + 1"
  by (simp add: ClusterStats_AddStatistic_def Let_def split: option.splits)

lemma ClusterStats_AddStatistic_ok:
  assumes "cluster_sum_ok c"
  shows "cluster_sum_ok (ClusterStats_AddStatistic a c)"
proof -
  have "sum_list (map snd (AList.update a v (cs_Alerts c))) =
        (case map_of (cs_Alerts c) a of
           None \<Rightarrow> sum_list (map snd (cs_Alerts c)) + v
         | Some w \<Rightarrow> sum_list (map snd (cs_Alerts c)) - w + v)" for v
    using sum_list_update [of "\<lambda>x. x" a v "cs_Alerts c"] by simp
  with assms show ?thesis
    by (auto simp: cluster_sum_ok_def ClusterStats_AddStatistic_def Let_def distinct_update
        split: option.splits)
qed

lemma OrganizationStats_AddStatistic_ok:
  assumes "org_sum_ok os"
  shows "org_sum_ok (OrganizationStats_AddStatistic cluster a os)"
proof -
  let ?k = "cluster_ID cluster"
  let ?old = "case map_of (os_Clusters os) ?k of None \<Rightarrow> NewClusterStats cluster | Some cs \<Rightarrow> cs"
  let ?new = "ClusterStats_AddStatistic a ?old"
  have old_ok: "cluster_sum_ok ?old"
    using assms map_of_list_all [of cluster_sum_ok "os_Clusters os" ?k]
    by (auto simp: org_sum_ok_def NewClusterStats_ok split: option.splits)
  have all: "list_all (\<lambda>kc. cluster_sum_ok (snd kc)) (AList.update ?k ?new (os_Clusters os))"
    using assms old_ok by (intro list_all_update ClusterStats_AddStatistic_ok)
      (simp_all add: org_sum_ok_def)
  have total: "sum_list (map (\<lambda>kc. cs_TotalAlerts (snd kc)) (AList.update ?k ?new (os_Clusters os)))
      = os_TotalAlerts os + 1"
    using assms
    by (simp add: sum_list_update [of cs_TotalAlerts] ClusterStats_AddStatistic_total
        org_sum_ok_def NewClusterStats_def split: option.splits)
  show ?thesis
    using assms all total
    by (simp add: org_sum_ok_def OrganizationStats_AddStatistic_def Let_def distinct_update)
qed

lemma OrganizationStatsList_AddStatistic_ok:
  assumes "stats_sum_ok l"
  shows "stats_sum_ok (OrganizationStatsList_AddStatistic org cluster a l)"
proof -
  let ?old = "case map_of (Items l) (org_ID org) of None \<Rightarrow> NewOrganizationStats org | Some os \<Rightarrow> os"
  have "org_sum_ok ?old"
    using assms map_of_list_all [of org_sum_ok "Items l" "org_ID org"]
    by (auto simp: stats_sum_ok_def NewOrganizationStats_ok split: option.splits)
  then have "org_sum_ok (OrganizationStats_AddStatistic cluster a ?old)"
    by (rule OrganizationStats_AddStatistic_ok)
  with assms show ?thesis
    by (simp add: stats_sum_ok_def OrganizationStatsList_AddStatistic_def Let_def
        distinct_update list_all_update)
qed

lemma AddStatistics_ok: "stats_sum_ok l \<Longrightarrow> stats_sum_ok (AddStatistics calls l)"
  by (induction calls l rule: AddStatistics.induct)
    (simp_all add: OrganizationStatsList_AddStatistic_ok)

section \<open>AddStatistic leaves everything else alone\<close>

lemma ClusterStats_AddStatistic_other:
  "a \<noteq> alert \<Longrightarrow> map_of (cs_Alerts (ClusterStats_AddStatistic alert c)) a = map_of (cs_Alerts c) a"
  by (simp add: ClusterStats_AddStatistic_def Let_def update_conv' split: option.splits)

lemma OrganizationStats_AddStatistic_clusters:
  "map_of (os_Clusters (OrganizationStats_AddStatistic cluster alert os)) =
     (map_of (os_Clusters os))(cluster_ID cluster \<mapsto>
        ClusterStats_AddStatistic alert
          (case map_of (os_Clusters os) (cluster_ID cluster) of
             None \<Rightarrow> NewClusterStats cluster | Some cs \<Rightarrow> cs))"
  by (simp add: OrganizationStats_AddStatistic_def Let_def update_conv')

lemma OrganizationStatsList_AddStatistic_items:
  "map_of (Items (OrganizationStatsList_AddStatistic org cluster alert l)) =
     (map_of (Items l))(org_ID org \<mapsto>
        OrganizationStats_AddStatistic cluster alert
          (case map_of (Items l) (org_ID org) of
             None \<Rightarrow> NewOrganizationStats org | Some os \<Rightarrow> os))"
  by (simp add: OrganizationStatsList_AddStatistic_def Let_def update_conv')

lemma clusters_of_AddStatistic:
  "map_of (clusters_of (OrganizationStatsList_AddStatistic org cluster alert l) (org_ID org)) =
     (map_of (clusters_of l (org_ID org)))(cluster_ID cluster \<mapsto>
        ClusterStats_AddStatistic alert
          (case map_of (clusters_of l (org_ID org)) (cluster_ID cluster) of
             None \<Rightarrow> NewClusterStats cluster | Some cs \<Rightarrow> cs))"
  by (simp add: clusters_of_def OrganizationStatsList_AddStatistic_items
      OrganizationStats_AddStatistic_clusters NewOrganizationStats_def split: option.splits)

lemma alerts_of_AddStatistic:
  "alerts_of (OrganizationStatsList_AddStatistic org cluster alert l) (org_ID org) (cluster_ID cluster) =
     cs_Alerts (ClusterStats_AddStatistic alert
       (case map_of (clusters_of l (org_ID org)) (cluster_ID cluster) of
          None \<Rightarrow> NewClusterStats cluster | Some cs \<Rightarrow> cs))"
  by (simp add: alerts_of_def clusters_of_AddStatistic)

section \<open>Ranging, slicing and sorting\<close>

lemma range_map_Cons:
  "range_map (k # ks) m =
     (case map_of m k of None \<Rightarrow> range_map ks m | Some v \<Rightarrow> (k, v) # range_map ks m)"
  by (simp add: range_map_def List.map_filter_simps split: option.splits)

lemma range_map_Nil: "range_map [] m = []"
  by (simp add: range_map_def List.map_filter_simps)

lemma set_range_map: "set (range_map ks m) = {(k, v). k \<in> set ks \<and> map_of m k = Some v}"
  by (induction ks) (auto simp: range_map_Cons range_map_Nil split: option.splits)

lemma distinct_range_map: "distinct ks \<Longrightarrow> distinct (range_map ks m)"
  by (induction ks) (auto simp: range_map_Cons range_map_Nil set_range_map split: option.splits)

lemma mset_range_map:
  assumes "distinct (map fst m)" and "range_order ks m"
  shows "mset (range_map ks m) = mset m"
proof -
  have "set (range_map ks m) = set m"
    using assms by (auto simp: set_range_map range_order_def rev_image_eqI)
  moreover have "distinct m"
    using assms(1) by (simp add: distinct_map)
  moreover have "distinct (range_map ks m)"
    using assms(2) by (simp add: distinct_range_map range_order_def)
  ultimately show ?thesis
    by (simp add: set_eq_iff_mset_eq_distinct)
qed

lemma sint_len:
  assumes "length xs < 2 ^ 63"
  shows "sint (len xs) = int (length xs)"
proof -
  from assms have "int (length xs) < int (2 ^ 63)" by (simp only: of_nat_less_iff)
  then have b: "int (length xs) < 2 ^ 63" by simp
  have "len xs = (word_of_int (int (length xs)) :: 64 word)" by (simp add: len_def)
  then have "sint (len xs) = signed_take_bit (LENGTH(64) - 1) (int (length xs))"
    by (simp only: sint_sbintrunc')
  also have "\<dots> = int (length xs)"
    using b by (simp add: signed_take_bit_int_eq_self)
  finally show ?thesis .
qed

lemma sint_len_minus:
  assumes "length xs < 2 ^ 63" and "0 \<le> sint n"
  shows "sint (len xs - n) = int (length xs) - sint n"
proof -
  have "sint n < 2 ^ 63" using sint_lt [of n] by simp
  then show ?thesis
    using assms by (simp add: sint_word_diff sint_len signed_take_bit_int_eq_self)
qed

lemma mset_insert_left: "mset (insert_left lt x ps) = add_mset x (mset ps)"
  by (induction ps) auto

lemma set_insert_left: "set (insert_left lt x ps) = insert x (set ps)"
  by (induction ps) auto

lemma sorted_insert_left:
  fixes f :: "'a \<Rightarrow> 'b::linorder"
  assumes "sorted_wrt (\<lambda>a b. f b \<le> f a) ps"
  shows "sorted_wrt (\<lambda>a b. f b \<le> f a) (insert_left (\<lambda>a b. f a < f b) x ps)"
  using assms by (induction ps) (auto simp: set_insert_left)

lemma foldl_insert_left:
  fixes f :: "'a \<Rightarrow> 'b::linorder"
  assumes "sorted_wrt (\<lambda>a b. f b \<le> f a) ps"
  shows "mset (foldl (\<lambda>ps x. insert_left (\<lambda>a b. f a < f b) x ps) ps xs) = mset ps + mset xs \<and>
         sorted_wrt (\<lambda>a b. f b \<le> f a) (foldl (\<lambda>ps x. insert_left (\<lambda>a b. f a < f b) x ps) ps xs)"
  using assms
  by (induction xs arbitrary: ps) (simp_all add: mset_insert_left sorted_insert_left)

lemma insertionSort_sorts:
  fixes f :: "'a \<Rightarrow> 'b::linorder"
  shows "sorts insertionSort (\<lambda>a b. f a < f b)"
  using foldl_insert_left [of f "[]"]
  by (simp add: sorts_def insertionSort_def sorted_wrt_rev not_less)

lemma insertionSort_sorts_org: "sorts insertionSort org_less"
proof -
  have "org_less = (\<lambda>a b. sint (os_TotalAlerts a) < sint (os_TotalAlerts b))"
    by (intro ext) (simp add: org_less_def)
  then show ?thesis
    using insertionSort_sorts [of "\<lambda>a::OrganizationStats. sint (os_TotalAlerts a)"] by simp
qed

lemma sorts_org_sorted:
  assumes "sorts sort_Slice org_less"
  shows "sorted (map (\<lambda>s. sint (os_TotalAlerts s)) (sort_Slice org_less xs))"
  using assms by (simp add: sorts_def sorted_map org_less_def not_less)

lemma sorts_mset: "sorts sort_Slice lt \<Longrightarrow> mset (sort_Slice lt xs) = mset xs"
  by (simp add: sorts_def)

lemma sorts_length: "sorts sort_Slice lt \<Longrightarrow> length (sort_Slice lt xs) = length xs"
  using sorts_mset [of sort_Slice lt xs] by (metis size_mset)

lemma length_range_map:
  "distinct (map fst m) \<Longrightarrow> range_order ks m \<Longrightarrow> length (range_map ks m) = length m"
  using mset_range_map [of m ks] by (metis size_mset)

lemma slice_from_len_minus:
  assumes "length xs < 2 ^ 63" and "0 < sint n" and "sint n \<le> int (length xs)"
  shows "slice_from (len xs - n) xs = Inr (drop (length xs - nat (sint n)) xs)"
proof -
  have "sint (len xs - n) = int (length xs) - sint n"
    using assms by (simp add: sint_len_minus)
  moreover have "nat (int (length xs) - sint n) = length xs - nat (sint n)"
    using assms by linarith
  ultimately show ?thesis
    using assms by (simp add: slice_from_def sint_len)
qed

lemma TopOrgs_eq:
  assumes "go_map_ok (Items l)" and "range_order ks (Items l)" and "sorts sort_Slice org_less"
  shows "TopOrgs sort_Slice ks l n =
     Inr (if sint n \<le> 0 \<or> int (length (Items l)) < sint n
          then sort_Slice org_less (map snd (range_map ks (Items l)))
          else drop (length (Items l) - nat (sint n))
                 (sort_Slice org_less (map snd (range_map ks (Items l)))))"
proof -
  let ?stats = "sort_Slice org_less (map snd (range_map ks (Items l)))"
  have n: "length ?stats = length (Items l)"
    using assms by (simp add: sorts_length length_range_map go_map_ok_def)
  then have lt: "length ?stats < 2 ^ 63"
    using assms(1) by (simp add: go_map_ok_def)
  show ?thesis
  proof (cases "sint n \<le> 0 \<or> int (length (Items l)) < sint n")
    case True
    then show ?thesis
      using n lt by (simp add: TopOrgs_def Let_def sint_len)
  next
    case False
    then have "slice_from (len ?stats - n) ?stats = Inr (drop (length ?stats - nat (sint n)) ?stats)"
      using n lt by (intro slice_from_len_minus) simp_all
    with False show ?thesis
      using n lt by (simp add: TopOrgs_def Let_def sint_len)
  qed
qed

lemma sorted_take_le_drop:
  assumes "sorted (map f xs)" and "a \<in> set (drop k xs)" and "b \<in> set (take k xs)"
  shows "f b \<le> f a"
proof -
  have "sorted (map f (take k xs) @ map f (drop k xs))"
    using assms(1) by (simp flip: map_append)
  then show ?thesis
    using assms(2,3) by (auto simp: sorted_append)
qed

lemma insertionSort_sorts_cluster: "sorts insertionSort cluster_less"
proof -
  have "cluster_less = (\<lambda>a b. sint (cs_TotalAlerts a) < sint (cs_TotalAlerts b))"
    by (intro ext) (simp add: cluster_less_def)
  then show ?thesis
    using insertionSort_sorts [of "\<lambda>a::ClusterStats. sint (cs_TotalAlerts a)"] by simp
qed

lemma slice_from_len_minus_panics:
  assumes "length xs < 2 ^ 63" and "sint n < 0 \<or> int (length xs) < sint n"
  shows "slice_from (len xs - n) xs = Inl Slice_bounds_out_of_range"
proof -
  from assms(1) have "int (length xs) < int (2 ^ 63)" by (simp only: of_nat_less_iff)
  then have c: "int (length xs) < 2 ^ 63" by simp
  let ?k = "int (length xs) - sint n"
  have s: "sint (len xs - n) = signed_take_bit 63 ?k"
    using assms(1) by (simp add: sint_word_diff sint_len)
  have "sint (len xs - n) < 0 \<or> int (length xs) < sint (len xs - n)"
  proof (cases "0 \<le> sint n")
    case True
    with assms have "sint (len xs - n) = ?k" by (simp add: sint_len_minus)
    with True assms(2) show ?thesis by simp
  next
    case False
    have lo: "- (2 ^ 63) \<le> sint n" using sint_ge [of n] by simp
    show ?thesis
    proof (cases "?k < 2 ^ 63")
      case True
      with False have "signed_take_bit 63 ?k = ?k"
        by (simp add: signed_take_bit_int_eq_self)
      with s False show ?thesis by simp
    next
      case False
      then have "signed_take_bit 63 ?k \<le> ?k - 2 ^ Suc 63"
        by (intro signed_take_bit_int_less_eq) simp
      moreover have "(2::int) ^ 63 = 9223372036854775808" "(2::int) ^ Suc 63 = 18446744073709551616"
        by simp_all
      ultimately show ?thesis using s c lo by linarith
    qed
  qed
  then show ?thesis
    using assms(1) by (auto simp: slice_from_def sint_len)
qed

lemma slice_from_len_minus0:
  assumes "length xs < 2 ^ 63" and "0 \<le> sint n" and "sint n \<le> int (length xs)"
  shows "slice_from (len xs - n) xs = Inr (drop (length xs - nat (sint n)) xs)"
proof (cases "sint n = 0")
  case True
  then have "sint n = sint (0 :: go_int)" by simp
  then have "n = 0" by (rule signed_word_eqI)
  then show ?thesis using assms(1) by (simp add: slice_from_def sint_len)
next
  case False
  with assms show ?thesis by (intro slice_from_len_minus) simp_all
qed

section \<open>float32: rounding stays close\<close>

lemma round_even_close: "\<bar>of_int (round_even r) - r\<bar> \<le> 1 / 2"
  unfolding round_even_def Let_def
  by (auto simp: abs_le_iff)

lemma two_powi_minus: "0 \<le> j \<Longrightarrow> (2::real) powi (- j) = 1 / 2 ^ nat j"
  by (cases "j = 0") (simp_all add: power_int_def field_simps)

lemma expo_bounds:
  assumes "0 < x"
  shows "2 powi (expo x) \<le> x \<and> x < 2 powi (expo x + 1)"
proof (cases "1 \<le> x")
  case True
  let ?n = "\<lfloor>x\<rfloor>"
  have n: "0 < ?n" using True by simp
  have e: "expo x = bitlen ?n - 1" using True by (simp add: expo_def)
  have b: "2 ^ nat (bitlen ?n - 1) \<le> ?n" "?n < 2 ^ nat (bitlen ?n)"
    using bitlen_bounds [OF n] by simp_all
  have pos: "0 < bitlen ?n"
    using n bitlen_nonneg [of ?n] bitlen_eq_zero_iff [of ?n] by linarith
  have "(2::real) powi (expo x) = 2 ^ nat (bitlen ?n - 1)"
    using pos by (simp add: e power_int_def)
  also have "\<dots> = of_int (2 ^ nat (bitlen ?n - 1))" by simp
  also have "\<dots> \<le> of_int ?n" using b(1) by (simp only: of_int_le_iff)
  also have "\<dots> \<le> x" by simp
  finally have lo: "2 powi (expo x) \<le> x" .
  have "?n + 1 \<le> 2 ^ nat (bitlen ?n)" using b(2) by simp
  then have "of_int (?n + 1) \<le> (of_int (2 ^ nat (bitlen ?n)) :: real)" by (simp only: of_int_le_iff)
  then have "of_int ?n + 1 \<le> (2::real) ^ nat (bitlen ?n)" by simp
  moreover have "x < of_int ?n + 1" by linarith
  ultimately have "x < 2 ^ nat (bitlen ?n)" by linarith
  moreover have "(2::real) powi (expo x + 1) = 2 ^ nat (bitlen ?n)"
    using pos by (simp add: e power_int_def)
  ultimately show ?thesis using lo by simp
next
  case False
  let ?m = "\<lceil>1 / x\<rceil>"
  have y: "1 < 1 / x" using False assms by simp
  then have m: "0 < ?m - 1" by linarith
  have e: "expo x = - bitlen (?m - 1)" using False by (simp add: expo_def)
  let ?k = "bitlen (?m - 1)"
  have b: "2 ^ nat (?k - 1) \<le> ?m - 1" "?m - 1 < 2 ^ nat ?k"
    using bitlen_bounds [OF m] by simp_all
  have pos: "0 < ?k"
    using m bitlen_nonneg [of "?m - 1"] bitlen_eq_zero_iff [of "?m - 1"] by linarith
  have "?m \<le> 2 ^ nat ?k" using b(2) by simp
  then have "of_int ?m \<le> (of_int (2 ^ nat ?k) :: real)" by (simp only: of_int_le_iff)
  then have "of_int ?m \<le> (2::real) ^ nat ?k" by simp
  moreover have "1 / x \<le> of_int ?m" by (rule le_of_int_ceiling)
  ultimately have "1 / x \<le> 2 ^ nat ?k" by linarith
  then have "1 / 2 ^ nat ?k \<le> x"
    using assms by (simp add: field_simps)
  moreover have "(2::real) powi (expo x) = 1 / 2 ^ nat ?k"
    using pos by (simp add: e two_powi_minus)
  ultimately have lo: "2 powi (expo x) \<le> x" by simp
  have "(of_int (2 ^ nat (?k - 1)) :: real) \<le> of_int (?m - 1)" using b(1) by (simp only: of_int_le_iff)
  then have "(2::real) ^ nat (?k - 1) \<le> of_int ?m - 1" by simp
  moreover have "of_int ?m - 1 < 1 / x" by linarith
  ultimately have "2 ^ nat (?k - 1) < 1 / x" by linarith
  then have "x < 1 / 2 ^ nat (?k - 1)"
    using assms by (simp add: field_simps)
  moreover have "(2::real) powi (expo x + 1) = 1 / 2 ^ nat (?k - 1)"
  proof -
    have "expo x + 1 = - (?k - 1)" by (simp add: e)
    then have "(2::real) powi (expo x + 1) = 2 powi (- (?k - 1))" by (simp only:)
    moreover have "0 \<le> ?k - 1" using pos by simp
    ultimately show ?thesis by (simp only: two_powi_minus)
  qed
  ultimately show ?thesis using lo by simp
qed

lemma f32_round_close:
  assumes lo: "2 powi (- 126) \<le> \<bar>x\<bar>" and hi: "\<bar>x\<bar> < 2 ^ 127"
  shows "\<exists>y. f32_round x = Finite y \<and> \<bar>y - x\<bar> \<le> \<bar>x\<bar> / 2 ^ 24"
proof -
  have "(0::real) < 2 powi (- 126)" by (rule zero_less_power_int) simp
  with lo have pos: "0 < \<bar>x\<bar>" by linarith
  then have nz: "x \<noteq> 0" by auto
  let ?e = "expo \<bar>x\<bar>"
  have eb: "2 powi ?e \<le> \<bar>x\<bar>" "\<bar>x\<bar> < 2 powi (?e + 1)"
    using expo_bounds [OF pos] by simp_all
  have e: "- 126 \<le> ?e"
  proof (rule ccontr)
    assume "\<not> - 126 \<le> ?e"
    then have "?e + 1 \<le> - 126" by simp
    then have "(2::real) powi (?e + 1) \<le> 2 powi (- 126)"
      by (rule power_int_increasing) simp
    with lo eb(2) show False by linarith
  qed
  let ?u = "(2::real) powi (?e - 23)"
  have u: "0 < ?u" by (rule zero_less_power_int) simp
  let ?y = "of_int (round_even (x / ?u)) * ?u"
  have "\<bar>?y - x\<bar> = \<bar>of_int (round_even (x / ?u)) - x / ?u\<bar> * ?u"
  proof -
    have "?y - x = (of_int (round_even (x / ?u)) - x / ?u) * ?u"
      using u by (simp add: field_simps)
    then show ?thesis using u by (simp only: abs_mult) simp
  qed
  also have "\<dots> \<le> (1 / 2) * ?u"
    using u round_even_close [of "x / ?u"] by (intro mult_right_mono) simp_all
  also have "\<dots> = 2 powi ?e / 2 ^ 24"
  proof -
    have "?u = 2 powi ?e / 2 powi 23" by (rule power_int_diff) simp
    then show ?thesis by simp
  qed
  also have "\<dots> \<le> \<bar>x\<bar> / 2 ^ 24"
    using eb(1) by (simp add: divide_right_mono)
  finally have close: "\<bar>?y - x\<bar> \<le> \<bar>x\<bar> / 2 ^ 24" .
  have "\<bar>?y\<bar> \<le> \<bar>x\<bar> + \<bar>x\<bar> / 2 ^ 24"
    using close by linarith
  also have "\<dots> < 2 ^ 127 + 2 ^ 127 / 2 ^ 24"
    using hi by (intro add_strict_mono divide_strict_right_mono) simp_all
  also have "\<dots> \<le> (2::real) ^ 128" by simp
  finally have fin: "\<not> 2 ^ 128 \<le> \<bar>?y\<bar>" by simp
  have "f32_round x = Finite ?y"
    using nz e fin by (simp add: f32_round_def Let_def max_def)
  with close show ?thesis by blast
qed

lemma div_close:
  fixes S T s t d :: real
  assumes t: "0 < t" and S: "\<bar>S - s\<bar> \<le> \<bar>s\<bar> * d" and T: "\<bar>T - t\<bar> \<le> t * d"
    and d: "0 \<le> d" "d \<le> 1 / 4"
  shows "\<bar>S / T - s / t\<bar> \<le> \<bar>s / t\<bar> * (3 * d)"
proof -
  have "t * d \<le> t * (1 / 4)" using t d by (intro mult_left_mono) simp_all
  with T have Tlo: "3 / 4 * t \<le> T" by (simp add: abs_le_iff) 
  with t have Tpos: "0 < T" by linarith
  have "\<bar>S * t - s * T\<bar> = \<bar>(S - s) * t - s * (T - t)\<bar>" by (simp add: algebra_simps)
  also have "\<dots> \<le> \<bar>(S - s) * t\<bar> + \<bar>s * (T - t)\<bar>" by (rule abs_triangle_ineq4)
  also have "\<dots> = \<bar>S - s\<bar> * t + \<bar>s\<bar> * \<bar>T - t\<bar>" using t by (simp add: abs_mult)
  also have "\<dots> \<le> (\<bar>s\<bar> * d) * t + \<bar>s\<bar> * (t * d)"
    using S T t by (intro add_mono mult_right_mono mult_left_mono) simp_all
  finally have num: "\<bar>S * t - s * T\<bar> \<le> 2 * \<bar>s\<bar> * t * d" by (simp add: algebra_simps)
  have "S / T - s / t = (S * t - s * T) / (T * t)"
    using t Tpos by (simp add: field_simps)
  then have "\<bar>S / T - s / t\<bar> = \<bar>S * t - s * T\<bar> / (T * t)"
    using t Tpos by (simp add: abs_mult)
  also have "\<dots> \<le> (2 * \<bar>s\<bar> * t * d) / (T * t)"
    using num t Tpos by (intro divide_right_mono) simp_all
  also have "\<dots> = 2 * \<bar>s\<bar> * d / T" using t by simp
  also have "\<dots> \<le> 2 * \<bar>s\<bar> * d / (3 / 4 * t)"
    using Tlo t d by (intro divide_left_mono mult_pos_pos mult_nonneg_nonneg) simp_all
  also have "\<dots> \<le> \<bar>s / t\<bar> * (3 * d)"
  proof -
    have "2 * \<bar>s\<bar> * d / (3 / 4 * t) = (\<bar>s\<bar> / t) * (8 / 3 * d)" using t by (simp add: field_simps)
    also have "\<dots> \<le> (\<bar>s\<bar> / t) * (3 * d)"
      using t d by (intro mult_left_mono) simp_all
    finally show ?thesis using t by (simp add: abs_divide)
  qed
  finally show ?thesis .
qed

lemma step_close:
  fixes Q q X a d :: real
  assumes q: "\<bar>q - X\<bar> \<le> \<bar>X\<bar> * a" and Q: "\<bar>Q - q\<bar> \<le> \<bar>q\<bar> * d" and d: "0 \<le> d"
  shows "\<bar>Q - X\<bar> \<le> \<bar>X\<bar> * (a + d + a * d)"
proof -
  have "\<bar>q\<bar> \<le> \<bar>X\<bar> + \<bar>X\<bar> * a" using q by linarith
  then have "\<bar>q\<bar> * d \<le> (\<bar>X\<bar> + \<bar>X\<bar> * a) * d" using d by (rule mult_right_mono)
  with q Q have "\<bar>Q - X\<bar> \<le> \<bar>X\<bar> * a + (\<bar>X\<bar> + \<bar>X\<bar> * a) * d" by linarith
  then show ?thesis by (simp add: algebra_simps)
qed

lemma close_range:
  fixes q X a :: real
  assumes "\<bar>q - X\<bar> \<le> \<bar>X\<bar> * a" and "0 \<le> a" and "a \<le> 1 / 2"
  shows "\<bar>X\<bar> / 2 \<le> \<bar>q\<bar> \<and> \<bar>q\<bar> \<le> 2 * \<bar>X\<bar>"
proof -
  have "\<bar>X\<bar> * a \<le> \<bar>X\<bar> * (1 / 2)" using assms(3) by (intro mult_left_mono) simp_all
  with assms(1) show ?thesis by linarith
qed

lemma f32_round_0: "f32_round 0 = Finite 0"
  by (simp add: f32_round_def)

lemma f32_round_100: "f32_round 100 = Finite 100"
  by code_simp

lemma f32_round_int:
  fixes i :: int
  assumes "i \<noteq> 0" and "\<bar>i\<bar> \<le> 2 ^ 63"
  shows "\<exists>S. f32_round (of_int i) = Finite S \<and> \<bar>S - of_int i\<bar> \<le> \<bar>of_int i\<bar> * (1 / 2 ^ 24)"
proof -
  have "1 \<le> \<bar>i\<bar>" using assms(1) by simp
  then have "(1::real) \<le> of_int \<bar>i\<bar>" by (simp only: of_int_1_le_iff)
  then have one: "(1::real) \<le> \<bar>of_int i\<bar>" by simp
  have "(2::real) powi (- 126) \<le> 1" by simp
  with one have lo: "(2::real) powi (- 126) \<le> \<bar>of_int i\<bar>" by linarith
  have "(of_int \<bar>i\<bar> :: real) \<le> of_int (2 ^ 63)" using assms(2) by (simp only: of_int_le_iff)
  then have "\<bar>of_int i :: real\<bar> \<le> 2 ^ 63" by simp
  then have hi: "\<bar>of_int i :: real\<bar> < 2 ^ 127" by simp
  from f32_round_close [OF lo hi] show ?thesis by simp
qed

lemma percent_accurate:
  fixes s t :: int
  assumes t: "0 < t" "t < 2 ^ 63" and s: "\<bar>s\<bar> \<le> 2 ^ 63"
  shows "\<exists>y. f32_mul (f32_div (f32_round (of_int s)) (f32_round (of_int t))) (f32_round 100) = Finite y \<and>
             \<bar>y - 100 * (of_int s / of_int t)\<bar> \<le> \<bar>100 * (of_int s / of_int t)\<bar> / 2 ^ 21"
proof -
  let ?d = "1 / 2 ^ 24 :: real"
  let ?t = "of_int t :: real" and ?s = "of_int s :: real"
  have tr: "0 < ?t" "1 \<le> ?t" "?t \<le> 2 ^ 63"
  proof -
    show "0 < ?t" using t by simp
    have "1 \<le> t" using t by simp
    then show "1 \<le> ?t" by (simp only: of_int_1_le_iff)
    have "?t \<le> of_int (2 ^ 63)" using t(2) by (simp only: of_int_le_iff)
    then show "?t \<le> 2 ^ 63" by simp
  qed
  obtain T where T: "f32_round ?t = Finite T" "\<bar>T - ?t\<bar> \<le> \<bar>?t\<bar> * ?d"
    using f32_round_int [of t] t by auto
  have T': "\<bar>T - ?t\<bar> \<le> ?t * ?d" using T(2) tr by simp
  have "?t * ?d \<le> ?t * (1 / 2)" using tr by (intro mult_left_mono) simp_all
  with T' tr have Tpos: "0 < T" by linarith
  show ?thesis
  proof (cases "s = 0")
    case True
    then show ?thesis
      using T Tpos by (simp add: f32_round_0 f32_round_100)
  next
    case False
    obtain S where S: "f32_round ?s = Finite S" "\<bar>S - ?s\<bar> \<le> \<bar>?s\<bar> * ?d"
      using f32_round_int [OF False s] by auto
    let ?X = "?s / ?t"
    have sr: "1 \<le> \<bar>?s\<bar>" "\<bar>?s\<bar> \<le> 2 ^ 63"
    proof -
      have "1 \<le> \<bar>s\<bar>" using False by simp
      then have "(1::real) \<le> of_int \<bar>s\<bar>" by (simp only: of_int_1_le_iff)
      then show "1 \<le> \<bar>?s\<bar>" by simp
      have "(of_int \<bar>s\<bar> :: real) \<le> of_int (2 ^ 63)" using s by (simp only: of_int_le_iff)
      then show "\<bar>?s\<bar> \<le> 2 ^ 63" by simp
    qed
    have X: "1 / 2 ^ 63 \<le> \<bar>?X\<bar>" "\<bar>?X\<bar> \<le> 2 ^ 63"
    proof -
      have eq: "\<bar>?X\<bar> = \<bar>?s\<bar> / ?t" using tr by (simp add: abs_divide)
      have "1 / 2 ^ 63 \<le> \<bar>?s\<bar> / ?t"
        using sr tr by (intro frac_le) simp_all
      then show "1 / 2 ^ 63 \<le> \<bar>?X\<bar>" by (simp only: eq)
      have "\<bar>?s\<bar> / ?t \<le> 2 ^ 63 / 1"
        using sr tr by (intro frac_le) simp_all
      then show "\<bar>?X\<bar> \<le> 2 ^ 63" by (simp only: eq div_by_1)
    qed
    have q: "\<bar>S / T - ?X\<bar> \<le> \<bar>?X\<bar> * (3 * ?d)"
      using tr(1) S(2) T' by (rule div_close) simp_all
    have qr: "\<bar>?X\<bar> / 2 \<le> \<bar>S / T\<bar>" "\<bar>S / T\<bar> \<le> 2 * \<bar>?X\<bar>"
      using close_range [OF q] by simp_all
    have "(2::real) powi (- 126) \<le> 1 / 2 ^ 63 / 2" by simp
    also have "\<dots> \<le> \<bar>?X\<bar> / 2" by (rule divide_right_mono [OF X(1)]) simp
    finally have qlo: "2 powi (- 126) \<le> \<bar>S / T\<bar>" using qr(1) by (rule order_trans)
    have aux0: "b \<le> 2 * m" if "b \<le> 2 * a" "a \<le> m" for a b m :: real
      using that by linarith
    have "\<bar>S / T\<bar> \<le> 2 * 2 ^ 63" by (rule aux0 [OF qr(2) X(2)])
    then have qhi: "\<bar>S / T\<bar> < 2 ^ 127" by simp
    obtain Q where Q: "f32_round (S / T) = Finite Q" "\<bar>Q - S / T\<bar> \<le> \<bar>S / T\<bar> / 2 ^ 24"
      using f32_round_close [OF qlo qhi] by auto
    have div: "f32_div (f32_round ?s) (f32_round ?t) = Finite Q"
      using S(1) T(1) Tpos Q(1) by simp
    have Q': "\<bar>Q - S / T\<bar> \<le> \<bar>S / T\<bar> * ?d" using Q(2) by simp
    have QX: "\<bar>Q - ?X\<bar> \<le> \<bar>?X\<bar> * (3 * ?d + ?d + 3 * ?d * ?d)"
      using step_close [OF q Q'] by simp
    have hX: "\<bar>Q * 100 - 100 * ?X\<bar> \<le> \<bar>100 * ?X\<bar> * (3 * ?d + ?d + 3 * ?d * ?d)"
    proof -
      have "Q * 100 - 100 * ?X = 100 * (Q - ?X)" by (simp add: algebra_simps)
      then have "\<bar>Q * 100 - 100 * ?X\<bar> = 100 * \<bar>Q - ?X\<bar>" by (simp only: abs_mult abs_numeral)
      also have "\<dots> \<le> 100 * (\<bar>?X\<bar> * (3 * ?d + ?d + 3 * ?d * ?d))"
        using QX by (intro mult_left_mono) simp_all
      finally show ?thesis by (simp add: abs_mult)
    qed
    have hr: "\<bar>100 * ?X\<bar> / 2 \<le> \<bar>Q * 100\<bar>" "\<bar>Q * 100\<bar> \<le> 2 * \<bar>100 * ?X\<bar>"
      using close_range [OF hX] by simp_all
    have h100: "\<bar>100 * ?X\<bar> = 100 * \<bar>?X\<bar>" by (simp only: abs_mult abs_numeral)
    have aux1: "p \<le> b" if "p \<le> a / 2" "c / 2 \<le> b" "c = 100 * a" "0 \<le> a" for p a b c :: real
      using that by linarith
    have aux2: "b \<le> 200 * m" if "b \<le> 2 * c" "c = 100 * a" "a \<le> m" for a b c m :: real
      using that by linarith
    have "(2::real) powi (- 126) \<le> 1 / 2 ^ 63 / 2" by simp
    also have "\<dots> \<le> \<bar>?X\<bar> / 2" by (rule divide_right_mono [OF X(1)]) simp
    finally have hlo: "2 powi (- 126) \<le> \<bar>Q * 100\<bar>"
      by (rule aux1 [OF _ hr(1) h100 abs_ge_zero])
    have "\<bar>Q * 100\<bar> \<le> 200 * 2 ^ 63" by (rule aux2 [OF hr(2) h100 X(2)])
    then have hhi: "\<bar>Q * 100\<bar> < 2 ^ 127" by simp
    obtain P where P: "f32_round (Q * 100) = Finite P" "\<bar>P - Q * 100\<bar> \<le> \<bar>Q * 100\<bar> / 2 ^ 24"
      using f32_round_close [OF hlo hhi] by auto
    have mul: "f32_mul (f32_div (f32_round ?s) (f32_round ?t)) (f32_round 100) = Finite P"
      using div P(1) by (simp add: f32_round_100)
    have P': "\<bar>P - Q * 100\<bar> \<le> \<bar>Q * 100\<bar> * ?d" using P(2) by simp
    have "\<bar>P - 100 * ?X\<bar> \<le> \<bar>100 * ?X\<bar> *
        ((3 * ?d + ?d + 3 * ?d * ?d) + ?d + (3 * ?d + ?d + 3 * ?d * ?d) * ?d)"
      using step_close [OF hX P'] by simp
    also have "\<dots> \<le> \<bar>100 * ?X\<bar> * (1 / 2 ^ 21)"
      by (intro mult_left_mono) simp_all
    finally have "\<bar>P - 100 * ?X\<bar> \<le> \<bar>100 * ?X\<bar> / 2 ^ 21" by simp
    with mul show ?thesis by blast
  qed
qed

lemma skip_warning_iff:
  "Errorln High_skip_percentage \<in> set (skip_lines an) \<longleftrightarrow>
     f32_gt (CalculateSkipPercentage an) (f32_round (3 / 10))"
  by (simp add: skip_lines_def Let_def)

lemma float32_0: "float32 0 = Finite 0"
  by (simp add: float32_def f32_round_0)

lemma sorted_same_mset:
  fixes xs ys :: "'a::linorder list"
  assumes "sorted xs" and "sorted ys" and "mset xs = mset ys"
  shows "xs = ys"
proof -
  have "sort ys = xs" using assms(3,1) by (rule properties_for_sort)
  moreover have "sort ys = ys" using assms(2) by (rule sort_key_id_if_sorted [of "\<lambda>x. x", simplified])
  ultimately show ?thesis by simp
qed

lemma sorts_totals_unique:
  assumes "sorts sort_Slice org_less" and "mset xs = mset ys"
  shows "map os_TotalAlerts (sort_Slice org_less xs) = map os_TotalAlerts (sort_Slice org_less ys)"
proof -
  let ?f = "\<lambda>s. sint (os_TotalAlerts s)"
  have "mset (map ?f (sort_Slice org_less xs)) = mset (map ?f (sort_Slice org_less ys))"
    using assms by (simp add: sorts_mset)
  then have "map ?f (sort_Slice org_less xs) = map ?f (sort_Slice org_less ys)"
    using assms(1) by (intro sorted_same_mset sorts_org_sorted)
  then have "map sint (map os_TotalAlerts (sort_Slice org_less xs)) =
      map sint (map os_TotalAlerts (sort_Slice org_less ys))"
    by (simp only: map_map comp_def)
  moreover have "inj (sint :: go_int \<Rightarrow> int)"
    by (rule injI) (rule signed_word_eqI)
  ultimately show ?thesis
    by (simp only: inj_map_eq_map)
qed

lemma sorts_unique:
  assumes "sorts sort_Slice org_less" and "mset xs = mset ys"
    and "distinct (map os_TotalAlerts xs)"
  shows "sort_Slice org_less xs = sort_Slice org_less ys"
proof -
  let ?f = "\<lambda>s. sint (os_TotalAlerts s)"
  have "inj_on os_TotalAlerts (set xs)" using assms(3) by (simp add: distinct_map)
  then have inj: "inj_on ?f (set xs)"
    by (auto simp: inj_on_def dest: signed_word_eqI)
  have "sort_key ?f xs = sort_Slice org_less xs"
    using assms(1) inj by (intro sort_key_inj_key_eq sorts_org_sorted) (simp_all add: sorts_mset)
  moreover have "sort_key ?f xs = sort_Slice org_less ys"
    using assms inj by (intro sort_key_inj_key_eq sorts_org_sorted) (simp_all add: sorts_mset)
  ultimately show ?thesis by simp
qed

section \<open>The scenario of the specification\<close>

lemma scenario_Items:
  "Items (AddStatistics scenario NewOrganizationStatsList) =
    [(''orgA'', \<lparr>os_Organization = orgA, os_TotalAlerts = 3, os_Clusters =
        [(''clusterX'', \<lparr>cs_Cluster = clusterX, cs_TotalAlerts = 2, cs_Alerts = [(''AlertFoo'', 2)]\<rparr>),
         (''clusterY'', \<lparr>cs_Cluster = clusterY, cs_TotalAlerts = 1, cs_Alerts = [(''AlertBar'', 1)]\<rparr>)]\<rparr>),
     (''orgB'', \<lparr>os_Organization = orgB, os_TotalAlerts = 1, os_Clusters =
        [(''clusterZ'', \<lparr>cs_Cluster = clusterZ, cs_TotalAlerts = 1, cs_Alerts = [(''AlertFoo'', 1)]\<rparr>)]\<rparr>)]"
  by (simp add: scenario_def orgA_def orgB_def clusterX_def clusterY_def clusterZ_def
      NewOrganizationStatsList_def OrganizationStatsList_AddStatistic_def
      OrganizationStats_AddStatistic_def ClusterStats_AddStatistic_def
      NewOrganizationStats_def NewClusterStats_def Let_def)

lemma scenario_orgA_clusters:
  "os_Clusters scenario_orgA =
     [(''clusterX'', \<lparr>cs_Cluster = clusterX, cs_TotalAlerts = 2, cs_Alerts = [(''AlertFoo'', 2)]\<rparr>),
      (''clusterY'', \<lparr>cs_Cluster = clusterY, cs_TotalAlerts = 1, cs_Alerts = [(''AlertBar'', 1)]\<rparr>)]"
  by (simp add: scenario_orgA_def scenario_Items)

lemma tied_Items:
  "Items (Stats tied_analyzer) =
    [(''orgA'', \<lparr>os_Organization = orgA, os_TotalAlerts = 1, os_Clusters =
        [(''clusterX'', \<lparr>cs_Cluster = clusterX, cs_TotalAlerts = 1, cs_Alerts = [(''AlertFoo'', 1)]\<rparr>)]\<rparr>),
     (''orgB'', \<lparr>os_Organization = orgB, os_TotalAlerts = 1, os_Clusters =
        [(''clusterZ'', \<lparr>cs_Cluster = clusterZ, cs_TotalAlerts = 1, cs_Alerts = [(''AlertFoo'', 1)]\<rparr>)]\<rparr>)]"
  by (simp add: tied_analyzer_def AddStatistic_def NewOrgAnalyzer_def
      orgA_def orgB_def clusterX_def clusterZ_def
      NewOrganizationStatsList_def OrganizationStatsList_AddStatistic_def
      OrganizationStats_AddStatistic_def ClusterStats_AddStatistic_def
      NewOrganizationStats_def NewClusterStats_def Let_def)

lemma scenario_analyzer_Stats:
  "Stats scenario_analyzer = AddStatistics scenario NewOrganizationStatsList"
  by (simp add: scenario_analyzer_def scenario_def AddStatistic_def NewOrgAnalyzer_def)

section \<open>The claims of the specification\<close>

text \<open>
  C1. After every finite sequence of AddStatistic calls on a fresh aggregator, the
  TotalAlerts of every OrganizationStats is the sum of the TotalAlerts of its ClusterStats,
  and the TotalAlerts of every ClusterStats is the sum of the counts of its AlertStats
  (sums of Go ints, as the counters are); every map holds each of its keys once.
\<close>

theorem C1_totals_are_sums:
  "stats_sum_ok (AddStatistics calls NewOrganizationStatsList)"
  by (rule AddStatistics_ok) (simp add: stats_sum_ok_def NewOrganizationStatsList_def)

theorem C1_totals_are_sums_witness:
  "stats_sum_ok (AddStatistics scenario NewOrganizationStatsList) \<and>
   map (\<lambda>ko. (fst ko, os_TotalAlerts (snd ko), map (\<lambda>kc. cs_TotalAlerts (snd kc)) (os_Clusters (snd ko))))
     (Items (AddStatistics scenario NewOrganizationStatsList)) =
   [(''orgA'', 3, [2, 1]), (''orgB'', 1, [1])]"
  using C1_totals_are_sums [of scenario]
  by (simp add: scenario_def orgA_def orgB_def clusterX_def clusterY_def clusterZ_def
      NewOrganizationStatsList_def OrganizationStatsList_AddStatistic_def
      OrganizationStats_AddStatistic_def ClusterStats_AddStatistic_def
      NewOrganizationStats_def NewClusterStats_def Let_def)

text \<open>
  C2. For a well-formed map of organizations, an order \<open>ks\<close> of the \<open>range\<close> loop and a
  \<open>sort.Slice\<close> that sorts: the sorted slice holds all organizations, ascending by
  TotalAlerts; TopOrgs(n) returns all of it when n <= 0 or n is at least the number of
  organizations; when 0 < n < that number it returns exactly the last n entries, and each of
  them has a TotalAlerts at least that of every entry left out; with no organization it
  returns the empty list for every n. TopOrgs never panics.
\<close>

theorem C2_TopOrgs:
  assumes "go_map_ok (Items l)" and "range_order ks (Items l)" and "sorts sort_Slice org_less"
  shows "let ascending = sort_Slice org_less (map snd (range_map ks (Items l)));
             cnt = length (Items l);
             rest = cnt - nat (sint n)
         in mset ascending = mset (map snd (Items l)) \<and>
            sorted (map (\<lambda>s. sint (os_TotalAlerts s)) ascending) \<and>
            (sint n \<le> 0 \<or> int cnt \<le> sint n \<longrightarrow> TopOrgs sort_Slice ks l n = Inr ascending) \<and>
            (0 < sint n \<and> sint n < int cnt \<longrightarrow>
               TopOrgs sort_Slice ks l n = Inr (drop rest ascending) \<and>
               length (drop rest ascending) = nat (sint n) \<and>
               (\<forall>a \<in> set (drop rest ascending). \<forall>b \<in> set (take rest ascending).
                  sint (os_TotalAlerts b) \<le> sint (os_TotalAlerts a))) \<and>
            (cnt = 0 \<longrightarrow> TopOrgs sort_Slice ks l n = Inr [])"
proof -
  let ?asc = "sort_Slice org_less (map snd (range_map ks (Items l)))"
  let ?rest = "length (Items l) - nat (sint n)"
  have m: "mset ?asc = mset (map snd (Items l))"
    using assms by (simp add: sorts_mset mset_range_map go_map_ok_def)
  have len: "length ?asc = length (Items l)"
    using assms by (simp add: sorts_length length_range_map go_map_ok_def)
  have s: "sorted (map (\<lambda>s. sint (os_TotalAlerts s)) ?asc)"
    using assms(3) by (rule sorts_org_sorted)
  have top: "TopOrgs sort_Slice ks l n =
      Inr (if sint n \<le> 0 \<or> int (length (Items l)) < sint n then ?asc else drop ?rest ?asc)"
    using assms by (rule TopOrgs_eq)
  have all: "TopOrgs sort_Slice ks l n = Inr ?asc" if "sint n \<le> 0 \<or> int (length (Items l)) \<le> sint n"
  proof (cases "sint n \<le> 0 \<or> int (length (Items l)) < sint n")
    case True
    then show ?thesis using top by simp
  next
    case False
    with that have "?rest = 0" by linarith
    with False show ?thesis using top by simp
  qed
  have part: "TopOrgs sort_Slice ks l n = Inr (drop ?rest ?asc)"
    if "0 < sint n \<and> sint n < int (length (Items l))"
    using that top by simp
  have cnt: "length (drop ?rest ?asc) = nat (sint n)"
    if "0 < sint n \<and> sint n < int (length (Items l))"
    using that len by simp linarith
  have ge: "sint (os_TotalAlerts b) \<le> sint (os_TotalAlerts a)"
    if "a \<in> set (drop ?rest ?asc)" and "b \<in> set (take ?rest ?asc)" for a b
    using s that by (rule sorted_take_le_drop)
  have none: "TopOrgs sort_Slice ks l n = Inr []" if "length (Items l) = 0"
  proof -
    from that have "sint n \<le> 0 \<or> int (length (Items l)) \<le> sint n" by linarith
    then have "TopOrgs sort_Slice ks l n = Inr ?asc" by (rule all)
    moreover from that len have "?asc = []" by simp
    ultimately show ?thesis by simp
  qed
  show ?thesis
    unfolding Let_def using m s all part cnt ge none by blast
qed

theorem C2_TopOrgs_witness:
  "go_map_ok (Items (AddStatistics scenario NewOrganizationStatsList)) \<and>
   range_order [''orgB'', ''orgA''] (Items (AddStatistics scenario NewOrganizationStatsList)) \<and>
   sorts insertionSort org_less \<and>
   0 < sint (1 :: go_int) \<and>
   sint (1 :: go_int) < int (length (Items (AddStatistics scenario NewOrganizationStatsList))) \<and>
   map os_TotalAlerts (insertionSort org_less (map snd (range_map [''orgB'', ''orgA'']
     (Items (AddStatistics scenario NewOrganizationStatsList))))) = [1, 3] \<and>
   map os_TotalAlerts (projr (TopOrgs insertionSort [''orgB'', ''orgA'']
     (AddStatistics scenario NewOrganizationStatsList) 1)) = [3]"
proof -
  let ?l = "AddStatistics scenario NewOrganizationStatsList"
  have ok: "go_map_ok (Items ?l)"
    by (simp add: scenario_Items go_map_ok_def)
  have ro: "range_order [''orgB'', ''orgA''] (Items ?l)"
    by (auto simp: scenario_Items range_order_def)
  have asc: "insertionSort org_less (map snd (range_map [''orgB'', ''orgA''] (Items ?l))) =
      map snd (rev (Items ?l))"
    by (simp add: scenario_Items range_map_def List.map_filter_simps insertionSort_def org_less_def)
  have n: "0 < sint (1 :: go_int)" "sint (1 :: go_int) < int (length (Items ?l))"
    by (simp_all add: scenario_Items)
  from C2_TopOrgs [OF ok ro insertionSort_sorts_org, of 1] n
  have "TopOrgs insertionSort [''orgB'', ''orgA''] ?l 1 =
      Inr (drop (length (Items ?l) - nat (sint (1 :: go_int)))
        (insertionSort org_less (map snd (range_map [''orgB'', ''orgA''] (Items ?l)))))"
    by (simp add: Let_def)
  then have "map os_TotalAlerts (projr (TopOrgs insertionSort [''orgB'', ''orgA''] ?l 1)) = [3]"
    by (simp add: asc) (simp add: scenario_Items)
  then show ?thesis
    using ok ro n insertionSort_sorts_org by (simp add: asc) (simp add: scenario_Items)
qed

text \<open>
  C3. The summaries print the warning when the skip percentage, a number of percent, exceeds
  the float32 constant 0.3. With 1 entry of 100 skipped the percentage is 1, which does not
  exceed 30, and both summaries print the warning; the run goes on to the organizations
  (there are none here) and ends without a panic.
\<close>

theorem C3_warning_at_one_percent:
  "CalculateSkipPercentage one_of_hundred = Finite 1 \<and>
   \<not> f32_gt (CalculateSkipPercentage one_of_hundred) (Finite 30) \<and>
   printShortSummary insertionSort [] one_of_hundred =
     ([Println Results, Println Blank, Println (Entries_skipped 1 100 (Finite 1)),
       Errorln High_skip_percentage], None) \<and>
   printLongSummary insertionSort [] (\<lambda>org. []) (\<lambda>cluster. []) one_of_hundred =
     ([Println Results, Println Blank, Println (Entries_skipped 1 100 (Finite 1)),
       Errorln High_skip_percentage], None)"
  by code_simp

text \<open>
  C4. With TotalEntries > 0, CalculateSkipPercentage returns
  SkippedEntries / TotalEntries * 100 evaluated in float32: the two counters converted, the
  float32 quotient, the float32 product with 100; the value is finite and within a relative
  error of \<open>2 ^ -21\<close> of the exact quotient. With TotalEntries = 0, in a state that keeps
  TotalEntries >= SkippedEntries >= 0, it returns NaN. It is a total function: nothing is
  raised.
\<close>

theorem C4_CalculateSkipPercentage:
  "(0 < sint (TotalEntries an) \<longrightarrow>
      CalculateSkipPercentage an =
        f32_mul (f32_div (float32 (SkippedEntries an)) (float32 (TotalEntries an))) (Finite 100) \<and>
      (\<exists>y. CalculateSkipPercentage an = Finite y \<and>
           \<bar>y - 100 * (real_of_int (sint (SkippedEntries an)) / real_of_int (sint (TotalEntries an)))\<bar>
           \<le> \<bar>100 * (real_of_int (sint (SkippedEntries an)) / real_of_int (sint (TotalEntries an)))\<bar>
               / 2 ^ 21)) \<and>
   (TotalEntries an = 0 \<and> 0 \<le> sint (SkippedEntries an) \<and>
    sint (SkippedEntries an) \<le> sint (TotalEntries an) \<longrightarrow>
      CalculateSkipPercentage an = NaN)"
proof (intro conjI impI)
  show "CalculateSkipPercentage an =
      f32_mul (f32_div (float32 (SkippedEntries an)) (float32 (TotalEntries an))) (Finite 100)"
    by (simp only: CalculateSkipPercentage_def f32_round_100)
next
  assume pos: "0 < sint (TotalEntries an)"
  have "sint (TotalEntries an) < 2 ^ 63"
    using sint_lt [of "TotalEntries an"] by simp
  moreover have "\<bar>sint (SkippedEntries an)\<bar> \<le> 2 ^ 63"
    using sint_ge [of "SkippedEntries an"] sint_lt [of "SkippedEntries an"] by simp
  ultimately show "\<exists>y. CalculateSkipPercentage an = Finite y \<and>
           \<bar>y - 100 * (real_of_int (sint (SkippedEntries an)) / real_of_int (sint (TotalEntries an)))\<bar>
           \<le> \<bar>100 * (real_of_int (sint (SkippedEntries an)) / real_of_int (sint (TotalEntries an)))\<bar>
               / 2 ^ 21"
    unfolding CalculateSkipPercentage_def float32_def
    using pos by (intro percent_accurate)
next
  assume z: "TotalEntries an = 0 \<and> 0 \<le> sint (SkippedEntries an) \<and>
    sint (SkippedEntries an) \<le> sint (TotalEntries an)"
  then have "sint (TotalEntries an) = 0" by simp
  with z have "sint (SkippedEntries an) = 0" by linarith
  then have "sint (SkippedEntries an) = sint (0 :: go_int)" by simp
  then have "SkippedEntries an = 0" by (rule signed_word_eqI)
  with z show "CalculateSkipPercentage an = NaN"
    by (simp add: CalculateSkipPercentage_def float32_0)
qed

theorem C4_CalculateSkipPercentage_witness:
  "0 < sint (TotalEntries one_of_four) \<and>
   CalculateSkipPercentage one_of_four = f32_mul (f32_div (float32 1) (float32 4)) (Finite 100) \<and>
   (\<exists>y. CalculateSkipPercentage one_of_four = Finite y \<and> \<bar>y - 25\<bar> \<le> 25 / 2 ^ 21) \<and>
   TotalEntries NewOrgAnalyzer = 0 \<and> 0 \<le> sint (SkippedEntries NewOrgAnalyzer) \<and>
   sint (SkippedEntries NewOrgAnalyzer) \<le> sint (TotalEntries NewOrgAnalyzer) \<and>
   CalculateSkipPercentage NewOrgAnalyzer = NaN"
proof -
  have p: "0 < sint (TotalEntries one_of_four)"
    by (simp add: one_of_four_def)
  have f: "SkippedEntries one_of_four = 1" "TotalEntries one_of_four = 4"
    by (simp_all add: one_of_four_def)
  have q: "100 * (real_of_int (sint (1 :: go_int)) / real_of_int (sint (4 :: go_int))) = 25"
    by simp
  have z: "TotalEntries NewOrgAnalyzer = 0 \<and> 0 \<le> sint (SkippedEntries NewOrgAnalyzer) \<and>
      sint (SkippedEntries NewOrgAnalyzer) \<le> sint (TotalEntries NewOrgAnalyzer)"
    by (simp add: NewOrgAnalyzer_def)
  note pos = C4_CalculateSkipPercentage [of one_of_four, THEN conjunct1, rule_format, OF p]
  note nan = C4_CalculateSkipPercentage [of NewOrgAnalyzer, THEN conjunct2, rule_format, OF z]
  have a: "CalculateSkipPercentage one_of_four = f32_mul (f32_div (float32 1) (float32 4)) (Finite 100) \<and>
      (\<exists>y. CalculateSkipPercentage one_of_four = Finite y \<and> \<bar>y - 25\<bar> \<le> 25 / 2 ^ 21)"
    by (rule pos [unfolded f q abs_numeral])
  show ?thesis
    by (intro conjI)
      (rule p a [THEN conjunct1] a [THEN conjunct2] z [THEN conjunct1]
        z [THEN conjunct2, THEN conjunct1] z [THEN conjunct2, THEN conjunct2] nan)+
qed

text \<open>
  C5. In the loop of Analyze with a non-empty SearchRegex, for an entry whose cluster and
  organization are resolved: if neither the organization's name nor its ID matches, the
  entry is dropped, TotalEntries is incremented, SkippedEntries and the statistics are
  unchanged and nothing is printed; if evaluating the pattern fails (on the name, or on
  the ID), the entry is dropped, SkippedEntries is incremented too and the failure is
  printed to the error stream. In each case the loop goes on with the next entry.
\<close>

theorem C5_filtered_and_failed_entries:
  assumes "SearchRegex an \<noteq> []"
    and "parseEntry entry = Inr (clusterID, alert)"
    and "GetCluster env clusterID = Inr cluster"
    and "GetOrgIDFromCluster env cluster = Inr orgID"
    and "GetOrgFromID env orgID = Inr org"
  shows "(MatchString env (SearchRegex an) (org_Name org) = Inr False \<and>
          MatchString env (SearchRegex an) (org_ID org) = Inr False \<longrightarrow>
            analyze_loop env (Inr entry # rest) an out =
            analyze_loop env rest (an\<lparr>TotalEntries := TotalEntries an + 1\<rparr>) out) \<and>
         (MatchString env (SearchRegex an) (org_Name org) = Inl err \<longrightarrow>
            analyze_loop env (Inr entry # rest) an out =
            analyze_loop env rest
              (an\<lparr>TotalEntries := TotalEntries an + 1, SkippedEntries := SkippedEntries an + 1\<rparr>)
              (out @ [Errorln (Failed_compare_name (org_Name org) (SearchRegex an) err)])) \<and>
         (MatchString env (SearchRegex an) (org_Name org) = Inr matchName \<and>
          MatchString env (SearchRegex an) (org_ID org) = Inl err \<longrightarrow>
            analyze_loop env (Inr entry # rest) an out =
            analyze_loop env rest
              (an\<lparr>TotalEntries := TotalEntries an + 1, SkippedEntries := SkippedEntries an + 1\<rparr>)
              (out @ [Errorln (Failed_compare_id (org_ID org) (SearchRegex an) err)]))"
  using assms by (simp add: analyze_entry_def skip_def Let_def)

theorem C5_filtered_and_failed_entries_witness:
  "analyze_loop sample_env [Inr sample_row] (NewOrgAnalyzer\<lparr>SearchRegex := ''orgZ''\<rparr>) [] =
     (Returned None, NewOrgAnalyzer\<lparr>SearchRegex := ''orgZ'', TotalEntries := 1\<rparr>, []) \<and>
   analyze_loop sample_env [Inr sample_row] (NewOrgAnalyzer\<lparr>SearchRegex := ''(''\<rparr>) [] =
     (Returned None, NewOrgAnalyzer\<lparr>SearchRegex := ''('', TotalEntries := 1, SkippedEntries := 1\<rparr>,
      [Errorln (Failed_compare_name ''Org A'' ''('' (Lib ''missing closing )''))])"
proof -
  have p: "parseEntry sample_row = Inr (''clusterX'', ''AlertFoo'')"
    by (simp add: parseEntry_def sample_row_def)
  have c: "GetCluster sample_env ''clusterX'' = Inr clusterX"
    and i: "GetOrgIDFromCluster sample_env clusterX = Inr ''orgA''"
    and g: "GetOrgFromID sample_env ''orgA'' = Inr orgA"
    by (simp_all add: sample_env_def)
  have m1: "MatchString sample_env ''orgZ'' (org_Name orgA) = Inr False"
    "MatchString sample_env ''orgZ'' (org_ID orgA) = Inr False"
    and m2: "MatchString sample_env ''('' (org_Name orgA) = Inl (Lib ''missing closing )'')"
    by (simp_all add: sample_env_def orgA_def)
  have "analyze_loop sample_env [Inr sample_row] (NewOrgAnalyzer\<lparr>SearchRegex := ''orgZ''\<rparr>) [] =
      analyze_loop sample_env [] (NewOrgAnalyzer\<lparr>SearchRegex := ''orgZ'', TotalEntries := 1\<rparr>) []"
    using C5_filtered_and_failed_entries [where an = "NewOrgAnalyzer\<lparr>SearchRegex := ''orgZ''\<rparr>"
        and entry = sample_row and env = sample_env and org = orgA and rest = "[]" and out = "[]",
        OF _ p c i g]
      m1
    by (simp add: NewOrgAnalyzer_def)
  moreover have "analyze_loop sample_env [Inr sample_row] (NewOrgAnalyzer\<lparr>SearchRegex := ''(''\<rparr>) [] =
      analyze_loop sample_env []
        (NewOrgAnalyzer\<lparr>SearchRegex := ''('', TotalEntries := 1, SkippedEntries := 1\<rparr>)
        [Errorln (Failed_compare_name ''Org A'' ''('' (Lib ''missing closing )''))]"
    using C5_filtered_and_failed_entries [where an = "NewOrgAnalyzer\<lparr>SearchRegex := ''(''\<rparr>"
        and entry = sample_row and env = sample_env and org = orgA and rest = "[]" and out = "[]"
        and err = "Lib ''missing closing )''", OF _ p c i g]
      m2
    by (simp add: NewOrgAnalyzer_def orgA_def)
  ultimately show ?thesis by simp
qed

text \<open>
  C6. The scenario: orgA has 3 alerts, of which clusterX has 2 of AlertFoo; orgB has 1;
  the skip percentage is 20 and the percentage of analyzed of 3 is 75, exactly; the
  percentage of total of 3 is the float32 next above 60, \<open>60 + 2 ^ -18\<close>: 3 / 5 rounds
  up to 10066330 / 2 ^ 24 and its product with 100 lies above the midpoint of 60 and its
  successor.
\<close>

theorem C6_scenario:
  "map_option os_TotalAlerts (map_of (Items (Stats scenario_analyzer)) ''orgA'') = Some 3 \<and>
   map_of (alerts_of (Stats scenario_analyzer) ''orgA'' ''clusterX'') ''AlertFoo'' = Some 2 \<and>
   map_option os_TotalAlerts (map_of (Items (Stats scenario_analyzer)) ''orgB'') = Some 1 \<and>
   TotalEntries scenario_analyzer = 5 \<and> SkippedEntries scenario_analyzer = 1 \<and>
   f32_eq (CalculateSkipPercentage scenario_analyzer) (Finite 20) \<and>
   f32_eq (CalculatePercentageOfTotal scenario_analyzer 3) (Finite (60 + 1 / 2 ^ 18)) \<and>
   f32_eq (CalculatePercentageOfAnalyzed scenario_analyzer 3) (Finite 75)"
  by code_simp

text \<open>CalculatePercentageOfTotal(3) == 60.0 is false in the scenario.\<close>

theorem C6_scenario_counterexample:
  "CalculatePercentageOfTotal scenario_analyzer 3 = Finite (60 + 1 / 2 ^ 18) \<and>
   \<not> f32_eq (CalculatePercentageOfTotal scenario_analyzer 3) (Finite 60)"
  by code_simp

text \<open>
  C7. When Output is none of short, long, yaml and json, validateAnalyzer fails and RunE
  returns the invalid-argument error with the analyzer as it was and nothing printed,
  whatever the collaborators are: Analyze is not reached, no entry is read.
\<close>

theorem C7_invalid_output:
  assumes "Output an \<notin> {''short'', ''long'', ''yaml'', ''json''}"
  shows "validateAnalyzer an = Some Invalid_output_format \<and>
         RunE env sort_Slice ks corder aorder an arg =
           (Returned (Some (Invalid_argument Invalid_output_format)), an, [])"
  using assms by (simp add: RunE_def validateAnalyzer_def)

theorem C7_invalid_output_witness:
  "Output (NewOrgAnalyzer\<lparr>Output := ''xml''\<rparr>) \<notin> {''short'', ''long'', ''yaml'', ''json''} \<and>
   RunE sample_env insertionSort [] (\<lambda>org. []) (\<lambda>cluster. [])
     (NewOrgAnalyzer\<lparr>Output := ''xml''\<rparr>) ''report.csv'' =
     (Returned (Some (Invalid_argument Invalid_output_format)), NewOrgAnalyzer\<lparr>Output := ''xml''\<rparr>, []) \<and>
   TotalEntries (fst (snd (Analyze sample_env ''report.csv'' (NewOrgAnalyzer\<lparr>Output := ''xml''\<rparr>)))) = 3"
proof -
  have o: "Output (NewOrgAnalyzer\<lparr>Output := ''xml''\<rparr>) \<notin> {''short'', ''long'', ''yaml'', ''json''}"
    by simp
  have a: "TotalEntries (fst (snd (Analyze sample_env ''report.csv'' (NewOrgAnalyzer\<lparr>Output := ''xml''\<rparr>)))) = 3"
    by (simp add: Analyze_def sample_env_def read_header_def analyze_entry_def parseEntry_def
        sample_row_def skip_def Let_def NewOrgAnalyzer_def AddStatistic_def)
  show ?thesis
    using C7_invalid_output [OF o, of sample_env insertionSort "[]" "\<lambda>org. []" "\<lambda>cluster. []"
        "''report.csv''"] o a
    by simp
qed

text \<open>
  C8. Two calls on the same analyzer (well-formed map, a \<open>sort.Slice\<close> that sorts), each
  with its own order of the \<open>range\<close> loop: the three percentages are the same; TopOrgs(n)
  returns both times a list with the same TotalAlerts in the same order; and it returns the
  same list when no two organizations have the same TotalAlerts.
\<close>

theorem C8_requery:
  assumes "go_map_ok (Items (Stats an))" and "sorts sort_Slice org_less"
    and "range_order ks1 (Items (Stats an))" and "range_order ks2 (Items (Stats an))"
  shows "ask sort_Slice ks1 an Ask_SkipPercentage = ask sort_Slice ks2 an Ask_SkipPercentage \<and>
         ask sort_Slice ks1 an (Ask_PercentageOfTotal cnt) = ask sort_Slice ks2 an (Ask_PercentageOfTotal cnt) \<and>
         ask sort_Slice ks1 an (Ask_PercentageOfAnalyzed cnt) =
           ask sort_Slice ks2 an (Ask_PercentageOfAnalyzed cnt) \<and>
         (\<exists>r1 r2. ask sort_Slice ks1 an (Ask_TopOrgs n) = Orgs (Inr r1) \<and>
                  ask sort_Slice ks2 an (Ask_TopOrgs n) = Orgs (Inr r2) \<and>
                  map os_TotalAlerts r1 = map os_TotalAlerts r2) \<and>
         (distinct (map (\<lambda>ko. os_TotalAlerts (snd ko)) (Items (Stats an))) \<longrightarrow>
            ask sort_Slice ks1 an (Ask_TopOrgs n) = ask sort_Slice ks2 an (Ask_TopOrgs n))"
proof -
  let ?l = "Stats an"
  let ?v1 = "map snd (range_map ks1 (Items ?l))" and ?v2 = "map snd (range_map ks2 (Items ?l))"
  let ?a1 = "sort_Slice org_less ?v1" and ?a2 = "sort_Slice org_less ?v2"
  let ?all = "sint n \<le> 0 \<or> int (length (Items ?l)) < sint n"
  let ?k = "length (Items ?l) - nat (sint n)"
  have d: "distinct (map fst (Items ?l))" using assms(1) by (simp add: go_map_ok_def)
  have m1: "mset ?v1 = mset (map snd (Items ?l))"
    using d assms(3) by (simp add: mset_range_map)
  have m2: "mset ?v2 = mset (map snd (Items ?l))"
    using d assms(4) by (simp add: mset_range_map)
  have t1: "TopOrgs sort_Slice ks1 ?l n = Inr (if ?all then ?a1 else drop ?k ?a1)"
    using assms(1,3,2) by (rule TopOrgs_eq)
  have t2: "TopOrgs sort_Slice ks2 ?l n = Inr (if ?all then ?a2 else drop ?k ?a2)"
    using assms(1,4,2) by (rule TopOrgs_eq)
  have m12: "mset ?v1 = mset ?v2" using m1 m2 by simp
  have "map os_TotalAlerts ?a1 = map os_TotalAlerts ?a2"
    using assms(2) m12 by (rule sorts_totals_unique)
  then have tot: "map os_TotalAlerts (if ?all then ?a1 else drop ?k ?a1) =
      map os_TotalAlerts (if ?all then ?a2 else drop ?k ?a2)"
    by (simp only: drop_map [symmetric] if_distrib [of "map os_TotalAlerts"])
  have same: "?a1 = ?a2" if "distinct (map (\<lambda>ko. os_TotalAlerts (snd ko)) (Items ?l))"
  proof -
    have dl: "distinct (map os_TotalAlerts (map snd (Items ?l)))"
      using that by (simp add: comp_def)
    have "mset (map os_TotalAlerts ?v1) = mset (map os_TotalAlerts (map snd (Items ?l)))"
      using m1 by (simp only: mset_map)
    then have "distinct (map os_TotalAlerts ?v1) = distinct (map os_TotalAlerts (map snd (Items ?l)))"
      by (rule mset_eq_imp_distinct_iff)
    with dl have "distinct (map os_TotalAlerts ?v1)" by (simp only:)
    with assms(2) m12 show ?thesis by (rule sorts_unique)
  qed
  have a1: "ask sort_Slice ks1 an (Ask_TopOrgs n) = Orgs (Inr (if ?all then ?a1 else drop ?k ?a1))"
    by (simp only: ask_def query.case t1)
  have a2: "ask sort_Slice ks2 an (Ask_TopOrgs n) = Orgs (Inr (if ?all then ?a2 else drop ?k ?a2))"
    by (simp only: ask_def query.case t2)
  have top: "\<exists>r1 r2. ask sort_Slice ks1 an (Ask_TopOrgs n) = Orgs (Inr r1) \<and>
                  ask sort_Slice ks2 an (Ask_TopOrgs n) = Orgs (Inr r2) \<and>
                  map os_TotalAlerts r1 = map os_TotalAlerts r2"
    by (intro exI conjI) (rule a1, rule a2, rule tot)
  have eq: "ask sort_Slice ks1 an (Ask_TopOrgs n) = ask sort_Slice ks2 an (Ask_TopOrgs n)"
    if "distinct (map (\<lambda>ko. os_TotalAlerts (snd ko)) (Items ?l))"
    using same [OF that] by (simp only: a1 a2)
  have rest: "ask sort_Slice ks1 an Ask_SkipPercentage = ask sort_Slice ks2 an Ask_SkipPercentage"
    "ask sort_Slice ks1 an (Ask_PercentageOfTotal cnt) = ask sort_Slice ks2 an (Ask_PercentageOfTotal cnt)"
    "ask sort_Slice ks1 an (Ask_PercentageOfAnalyzed cnt) =
       ask sort_Slice ks2 an (Ask_PercentageOfAnalyzed cnt)"
    by (simp_all only: ask_def query.case)
  show ?thesis
  proof (intro conjI impI)
    assume "distinct (map (\<lambda>ko. os_TotalAlerts (snd ko)) (Items ?l))"
    then show "ask sort_Slice ks1 an (Ask_TopOrgs n) = ask sort_Slice ks2 an (Ask_TopOrgs n)"
      by (rule eq)
  qed (rule rest top)+
qed

text \<open>
  Two organizations with one alert each: TopOrgs(1) returns orgB when the loop visits orgA
  first, and orgA when it visits orgB first.
\<close>

theorem C8_requery_counterexample:
  "go_map_ok (Items (Stats tied_analyzer)) \<and> sorts insertionSort org_less \<and>
   range_order [''orgA'', ''orgB''] (Items (Stats tied_analyzer)) \<and>
   range_order [''orgB'', ''orgA''] (Items (Stats tied_analyzer)) \<and>
   map (\<lambda>s. org_ID (os_Organization s))
     (projr (TopOrgs insertionSort [''orgA'', ''orgB''] (Stats tied_analyzer) 1)) = [''orgB''] \<and>
   map (\<lambda>s. org_ID (os_Organization s))
     (projr (TopOrgs insertionSort [''orgB'', ''orgA''] (Stats tied_analyzer) 1)) = [''orgA''] \<and>
   ask insertionSort [''orgA'', ''orgB''] tied_analyzer (Ask_TopOrgs 1) \<noteq>
   ask insertionSort [''orgB'', ''orgA''] tied_analyzer (Ask_TopOrgs 1)"
proof -
  have ok: "go_map_ok (Items (Stats tied_analyzer))"
    by (simp add: tied_Items go_map_ok_def)
  have ro: "range_order [''orgA'', ''orgB''] (Items (Stats tied_analyzer))"
    "range_order [''orgB'', ''orgA''] (Items (Stats tied_analyzer))"
    by (auto simp: tied_Items range_order_def)
  have "map (\<lambda>s. org_ID (os_Organization s))
     (projr (TopOrgs insertionSort [''orgA'', ''orgB''] (Stats tied_analyzer) 1)) = [''orgB''] \<and>
   map (\<lambda>s. org_ID (os_Organization s))
     (projr (TopOrgs insertionSort [''orgB'', ''orgA''] (Stats tied_analyzer) 1)) = [''orgA''] \<and>
   ask insertionSort [''orgA'', ''orgB''] tied_analyzer (Ask_TopOrgs 1) \<noteq>
   ask insertionSort [''orgB'', ''orgA''] tied_analyzer (Ask_TopOrgs 1)"
    by code_simp
  then show ?thesis using ok ro insertionSort_sorts_org by simp
qed

theorem C8_requery_witness:
  "go_map_ok (Items (Stats scenario_analyzer)) \<and> sorts insertionSort org_less \<and>
   range_order [''orgA'', ''orgB''] (Items (Stats scenario_analyzer)) \<and>
   range_order [''orgB'', ''orgA''] (Items (Stats scenario_analyzer)) \<and>
   distinct (map (\<lambda>ko. os_TotalAlerts (snd ko)) (Items (Stats scenario_analyzer))) \<and>
   ask insertionSort [''orgA'', ''orgB''] scenario_analyzer (Ask_TopOrgs 1) =
   ask insertionSort [''orgB'', ''orgA''] scenario_analyzer (Ask_TopOrgs 1) \<and>
   ask insertionSort [''orgA'', ''orgB''] scenario_analyzer Ask_SkipPercentage =
   ask insertionSort [''orgB'', ''orgA''] scenario_analyzer Ask_SkipPercentage"
proof -
  have ok: "go_map_ok (Items (Stats scenario_analyzer))"
    by (simp add: scenario_analyzer_Stats scenario_Items go_map_ok_def)
  have ro: "range_order [''orgA'', ''orgB''] (Items (Stats scenario_analyzer))"
    "range_order [''orgB'', ''orgA''] (Items (Stats scenario_analyzer))"
    by (auto simp: scenario_analyzer_Stats scenario_Items range_order_def)
  have d: "distinct (map (\<lambda>ko. os_TotalAlerts (snd ko)) (Items (Stats scenario_analyzer)))"
    by (simp add: scenario_analyzer_Stats scenario_Items)
  show ?thesis
    using C8_requery [OF ok insertionSort_sorts_org ro, of 1] ok ro d insertionSort_sorts_org
    by simp
qed

text \<open>
  C9. TopClusters(n) on an organization with c clusters (a well-formed map, an order of
  the \<open>range\<close> loop, a \<open>sort.Slice\<close> that sorts) has no bounds check: it panics with
  a slice bound out of range exactly when n is not in 0..c, so for every n > c; for
  0 <= n <= c it returns the last n entries of the ascending list, and for n = 0 the empty
  list, not all clusters.
\<close>

theorem C9_TopClusters:
  assumes "go_map_ok (os_Clusters os)" and "range_order ks (os_Clusters os)"
    and "sorts sort_Slice cluster_less"
  shows "let ascending = sort_Slice cluster_less (map snd (range_map ks (os_Clusters os)));
             c = length (os_Clusters os)
         in (TopClusters sort_Slice ks os n = Inl Slice_bounds_out_of_range \<longleftrightarrow>
               \<not> (0 \<le> sint n \<and> sint n \<le> int c)) \<and>
            (int c < sint n \<longrightarrow> TopClusters sort_Slice ks os n = Inl Slice_bounds_out_of_range) \<and>
            (0 \<le> sint n \<and> sint n \<le> int c \<longrightarrow>
               TopClusters sort_Slice ks os n = Inr (drop (c - nat (sint n)) ascending)) \<and>
            TopClusters sort_Slice ks os 0 = Inr []"
proof -
  let ?asc = "sort_Slice cluster_less (map snd (range_map ks (os_Clusters os)))"
  let ?c = "length (os_Clusters os)"
  have len: "length ?asc = ?c"
    using assms by (simp add: sorts_length length_range_map go_map_ok_def)
  then have lt: "length ?asc < 2 ^ 63"
    using assms(1) by (simp add: go_map_ok_def)
  have bad: "TopClusters sort_Slice ks os n = Inl Slice_bounds_out_of_range"
    if "sint n < 0 \<or> int ?c < sint n"
    using slice_from_len_minus_panics [OF lt, of n] that len
    by (simp add: TopClusters_def Let_def)
  have good: "TopClusters sort_Slice ks os m = Inr (drop (?c - nat (sint m)) ?asc)"
    if "0 \<le> sint m \<and> sint m \<le> int ?c" for m
    using slice_from_len_minus0 [OF lt, of m] that len
    by (simp add: TopClusters_def Let_def)
  have zero: "TopClusters sort_Slice ks os 0 = Inr []"
    using good [of 0] len by simp
  have iff: "TopClusters sort_Slice ks os n = Inl Slice_bounds_out_of_range \<longleftrightarrow>
      \<not> (0 \<le> sint n \<and> sint n \<le> int ?c)"
  proof (cases "0 \<le> sint n \<and> sint n \<le> int ?c")
    case True
    then show ?thesis using good [of n] by simp
  next
    case False
    then have "sint n < 0 \<or> int ?c < sint n" by linarith
    with False show ?thesis using bad by simp
  qed
  show ?thesis
    unfolding Let_def using iff bad good [of n] zero by blast
qed

theorem C9_TopClusters_witness:
  "go_map_ok (os_Clusters scenario_orgA) \<and>
   range_order [''clusterX'', ''clusterY''] (os_Clusters scenario_orgA) \<and>
   sorts insertionSort cluster_less \<and>
   int (length (os_Clusters scenario_orgA)) < sint (3 :: go_int) \<and>
   TopClusters insertionSort [''clusterX'', ''clusterY''] scenario_orgA 3 =
     Inl Slice_bounds_out_of_range \<and>
   TopClusters insertionSort [''clusterX'', ''clusterY''] scenario_orgA 0 = Inr [] \<and>
   0 \<le> sint (1 :: go_int) \<and> sint (1 :: go_int) \<le> int (length (os_Clusters scenario_orgA)) \<and>
   map cs_TotalAlerts (projr (TopClusters insertionSort [''clusterX'', ''clusterY''] scenario_orgA 1)) = [2]"
proof -
  let ?ks = "[''clusterX'', ''clusterY'']"
  have ok: "go_map_ok (os_Clusters scenario_orgA)"
    by (simp add: scenario_orgA_clusters go_map_ok_def)
  have ro: "range_order ?ks (os_Clusters scenario_orgA)"
    by (simp add: scenario_orgA_clusters range_order_def)
  have asc: "insertionSort cluster_less (map snd (range_map ?ks (os_Clusters scenario_orgA))) =
      map snd (rev (os_Clusters scenario_orgA))"
    by (simp add: scenario_orgA_clusters range_map_def List.map_filter_simps insertionSort_def
        cluster_less_def)
  have n: "int (length (os_Clusters scenario_orgA)) < sint (3 :: go_int)"
    "0 \<le> sint (1 :: go_int)" "sint (1 :: go_int) \<le> int (length (os_Clusters scenario_orgA))"
    by (simp_all add: scenario_orgA_clusters)
  note th = C9_TopClusters [OF ok ro insertionSort_sorts_cluster, unfolded Let_def]
  from th [of 3] n(1) have three: "TopClusters insertionSort ?ks scenario_orgA 3 =
      Inl Slice_bounds_out_of_range"
    by simp
  from th [of 3] have zero: "TopClusters insertionSort ?ks scenario_orgA 0 = Inr []"
    by simp
  from th [of 1] n(2,3) have "TopClusters insertionSort ?ks scenario_orgA 1 =
      Inr (drop (length (os_Clusters scenario_orgA) - nat (sint (1 :: go_int)))
        (insertionSort cluster_less (map snd (range_map ?ks (os_Clusters scenario_orgA)))))"
    by simp
  then have one: "map cs_TotalAlerts (projr (TopClusters insertionSort ?ks scenario_orgA 1)) = [2]"
    by (simp add: asc) (simp add: scenario_orgA_clusters)
  show ?thesis
    using ok ro insertionSort_sorts_cluster n three zero one by simp
qed

text \<open>
  C10. A call AddStatistic(org, cluster, alert) changes nothing but the entry of org, in it
  nothing but the entry of cluster, and in that nothing but the count of alert: the entry of
  every other organization ID, under org the entry of every other cluster ID, and under
  that cluster the count of every other alert name are what they were; TotalEntries and
  SkippedEntries (and the flags) of the analyzer are what they were.
\<close>

theorem C10_AddStatistic_frame:
  "(\<forall>k. k \<noteq> org_ID org \<longrightarrow>
      map_of (Items (OrganizationStatsList_AddStatistic org cluster alert l)) k = map_of (Items l) k) \<and>
   (\<forall>c. c \<noteq> cluster_ID cluster \<longrightarrow>
      map_of (clusters_of (OrganizationStatsList_AddStatistic org cluster alert l) (org_ID org)) c =
      map_of (clusters_of l (org_ID org)) c) \<and>
   (\<forall>a. a \<noteq> alert \<longrightarrow>
      map_of (alerts_of (OrganizationStatsList_AddStatistic org cluster alert l)
        (org_ID org) (cluster_ID cluster)) a =
      map_of (alerts_of l (org_ID org) (cluster_ID cluster)) a) \<and>
   AddStatistic org cluster alert an =
     an\<lparr>Stats := OrganizationStatsList_AddStatistic org cluster alert (Stats an)\<rparr> \<and>
   TotalEntries (AddStatistic org cluster alert an) = TotalEntries an \<and>
   SkippedEntries (AddStatistic org cluster alert an) = SkippedEntries an"
proof (intro conjI allI impI)
  fix k assume "k \<noteq> org_ID org"
  then show "map_of (Items (OrganizationStatsList_AddStatistic org cluster alert l)) k =
      map_of (Items l) k"
    by (simp add: OrganizationStatsList_AddStatistic_items)
next
  fix c assume "c \<noteq> cluster_ID cluster"
  then show "map_of (clusters_of (OrganizationStatsList_AddStatistic org cluster alert l) (org_ID org)) c =
      map_of (clusters_of l (org_ID org)) c"
    by (simp add: clusters_of_AddStatistic)
next
  fix a assume "a \<noteq> alert"
  then show "map_of (alerts_of (OrganizationStatsList_AddStatistic org cluster alert l)
        (org_ID org) (cluster_ID cluster)) a =
      map_of (alerts_of l (org_ID org) (cluster_ID cluster)) a"
    by (simp add: alerts_of_AddStatistic ClusterStats_AddStatistic_other)
      (simp add: alerts_of_def NewClusterStats_def split: option.splits)
qed (simp_all add: AddStatistic_def)

theorem C10_AddStatistic_frame_witness:
  "''orgB'' \<noteq> org_ID orgA \<and> ''clusterY'' \<noteq> cluster_ID clusterX \<and> ''AlertBar'' \<noteq> ''AlertFoo'' \<and>
   map_of (Items (OrganizationStatsList_AddStatistic orgA clusterX ''AlertFoo''
     (AddStatistics scenario NewOrganizationStatsList))) ''orgB'' =
   map_of (Items (AddStatistics scenario NewOrganizationStatsList)) ''orgB'' \<and>
   map_of (clusters_of (OrganizationStatsList_AddStatistic orgA clusterX ''AlertFoo''
     (AddStatistics scenario NewOrganizationStatsList)) (org_ID orgA)) ''clusterY'' =
   map_of (clusters_of (AddStatistics scenario NewOrganizationStatsList) (org_ID orgA)) ''clusterY'' \<and>
   map_of (alerts_of (OrganizationStatsList_AddStatistic orgA clusterX ''AlertFoo''
     (AddStatistics scenario NewOrganizationStatsList)) (org_ID orgA) (cluster_ID clusterX)) ''AlertBar'' =
   map_of (alerts_of (AddStatistics scenario NewOrganizationStatsList) (org_ID orgA)
     (cluster_ID clusterX)) ''AlertBar'' \<and>
   map_of (alerts_of (OrganizationStatsList_AddStatistic orgA clusterX ''AlertFoo''
     (AddStatistics scenario NewOrganizationStatsList)) (org_ID orgA) (cluster_ID clusterX)) ''AlertFoo'' =
   Some 3"
proof -
  have ne: "''orgB'' \<noteq> org_ID orgA" "''clusterY'' \<noteq> cluster_ID clusterX" "''AlertBar'' \<noteq> ''AlertFoo''"
    by (simp_all add: orgA_def clusterX_def)
  have foo: "map_of (alerts_of (OrganizationStatsList_AddStatistic orgA clusterX ''AlertFoo''
     (AddStatistics scenario NewOrganizationStatsList)) (org_ID orgA) (cluster_ID clusterX)) ''AlertFoo'' =
     Some 3"
    by (simp add: scenario_def orgA_def orgB_def clusterX_def clusterY_def clusterZ_def
      NewOrganizationStatsList_def OrganizationStatsList_AddStatistic_def
      OrganizationStats_AddStatistic_def ClusterStats_AddStatistic_def
      NewOrganizationStats_def NewClusterStats_def Let_def alerts_of_def clusters_of_def)
  note fr = C10_AddStatistic_frame [of orgA clusterX "''AlertFoo''"
        "AddStatistics scenario NewOrganizationStatsList"]
  from fr ne(1) have a: "map_of (Items (OrganizationStatsList_AddStatistic orgA clusterX ''AlertFoo''
     (AddStatistics scenario NewOrganizationStatsList))) ''orgB'' =
   map_of (Items (AddStatistics scenario NewOrganizationStatsList)) ''orgB''"
    by simp
  from fr ne(2) have b: "map_of (clusters_of (OrganizationStatsList_AddStatistic orgA clusterX ''AlertFoo''
     (AddStatistics scenario NewOrganizationStatsList)) (org_ID orgA)) ''clusterY'' =
   map_of (clusters_of (AddStatistics scenario NewOrganizationStatsList) (org_ID orgA)) ''clusterY''"
    by simp
  from fr ne(3) have c: "map_of (alerts_of (OrganizationStatsList_AddStatistic orgA clusterX ''AlertFoo''
     (AddStatistics scenario NewOrganizationStatsList)) (org_ID orgA) (cluster_ID clusterX)) ''AlertBar'' =
   map_of (alerts_of (AddStatistics scenario NewOrganizationStatsList) (org_ID orgA)
     (cluster_ID clusterX)) ''AlertBar''"
    by simp
  show ?thesis
    using ne a b c foo by simp
qed

end
